theory Spec2Isabelle
  imports Main "HOL-Library.Word"
begin

section \<open>IEEE 754 binary64 values (the C++ type \<open>double\<close>)\<close>

text \<open>
  The kernels of \<^verbatim>\<open>mo/model2geovals_varchange.cc\<close> compute on \<open>double\<close>. A double is
  modelled by its 64 bits. Every finite double is an integer multiple of \<open>2 ^ -1074\<close>
  (the smallest subnormal), so a decoded finite value is a sign and a magnitude counted
  in that unit; arithmetic is exact on these integers and then rounded to the nearest
  representable value, ties to even, which is the default rounding mode. NaN payloads
  are not modelled: an operation that yields a NaN yields the quiet NaN \<open>0x7FF8000000000000\<close>.
\<close>

type_synonym double = "64 word"

datatype fpval = NaN | Inf bool | Fin bool nat

text \<open>\<open>pow2 n\<close> is \<open>2 ^ n\<close>, kept as a constant of its own so that exponents near 1074 stay symbolic.\<close>

definition pow2 :: "nat \<Rightarrow> nat" where
  "pow2 n = 2 ^ n"

fun bit_length :: "nat \<Rightarrow> nat" where
  "bit_length n = (if n = 0 then 0 else Suc (bit_length (n div 2)))"

definition decode :: "double \<Rightarrow> fpval" where
  "decode w =
     (let n = unat w; s = (2 ^ 63 \<le> n); e = (n div 2 ^ 52) mod 2 ^ 11; f = n mod 2 ^ 52
      in if e = 2047 then (if f = 0 then Inf s else NaN)
         else if e = 0 then Fin s f
         else Fin s ((2 ^ 52 + f) * pow2 (e - 1)))"

definition sign_bit :: "bool \<Rightarrow> nat" where
  "sign_bit s = (if s then 2 ^ 63 else 0)"

definition encode :: "fpval \<Rightarrow> double" where
  "encode v =
     (case v of
        NaN \<Rightarrow> of_nat (2047 * 2 ^ 52 + 2 ^ 51)
      | Inf s \<Rightarrow> of_nat (sign_bit s + 2047 * 2 ^ 52)
      | Fin s k \<Rightarrow>
          of_nat (sign_bit s +
            (if k < 2 ^ 52 then k
             else let t = bit_length k - 53
                  in (t + 1) * 2 ^ 52 + (k div pow2 t - 2 ^ 52))))"

text \<open>
  \<open>round_nearest_even s p q\<close> rounds the exact magnitude \<open>p / q\<close> (in units of \<open>2 ^ -1074\<close>,
  \<open>q > 0\<close>) to a double of sign \<open>s\<close>: the spacing of the doubles around it is \<open>2 ^ t\<close> units,
  a tie goes to the even significand, and a result of \<open>2 ^ 1024\<close> or more overflows to infinity.
\<close>

definition round_nearest_even :: "bool \<Rightarrow> nat \<Rightarrow> nat \<Rightarrow> fpval" where
  "round_nearest_even s p q =
     (let t = bit_length (p div q) - 53;
          d = q * pow2 t;
          m = p div d;
          r = p mod d;
          m' = (if d < 2 * r \<or> (2 * r = d \<and> odd m) then m + 1 else m);
          k = m' * pow2 t
      in if pow2 2098 \<le> k then Inf s else Fin s k)"

fun fp_mul :: "fpval \<Rightarrow> fpval \<Rightarrow> fpval" where
  "fp_mul NaN _ = NaN"
| "fp_mul _ NaN = NaN"
| "fp_mul (Inf s) (Inf t) = Inf (s \<noteq> t)"
| "fp_mul (Inf s) (Fin t b) = (if b = 0 then NaN else Inf (s \<noteq> t))"
| "fp_mul (Fin s a) (Inf t) = (if a = 0 then NaN else Inf (s \<noteq> t))"
| "fp_mul (Fin s a) (Fin t b) = round_nearest_even (s \<noteq> t) (a * b) (pow2 1074)"

fun fp_div :: "fpval \<Rightarrow> fpval \<Rightarrow> fpval" where
  "fp_div NaN _ = NaN"
| "fp_div _ NaN = NaN"
| "fp_div (Inf s) (Inf t) = NaN"
| "fp_div (Inf s) (Fin t b) = Inf (s \<noteq> t)"
| "fp_div (Fin s a) (Inf t) = Fin (s \<noteq> t) 0"
| "fp_div (Fin s a) (Fin t b) =
     (if b = 0 then (if a = 0 then NaN else Inf (s \<noteq> t))
      else round_nearest_even (s \<noteq> t) (a * pow2 1074) b)"

definition signed_mag :: "bool \<Rightarrow> nat \<Rightarrow> int" where
  "signed_mag s k = (if s then - int k else int k)"

fun fp_add :: "fpval \<Rightarrow> fpval \<Rightarrow> fpval" where
  "fp_add NaN _ = NaN"
| "fp_add _ NaN = NaN"
| "fp_add (Inf s) (Inf t) = (if s = t then Inf s else NaN)"
| "fp_add (Inf s) (Fin t b) = Inf s"
| "fp_add (Fin s a) (Inf t) = Inf t"
| "fp_add (Fin s a) (Fin t b) =
     (let z = signed_mag s a + signed_mag t b
      in if z = 0 then Fin (s \<and> t) 0 else round_nearest_even (z < 0) (nat \<bar>z\<bar>) 1)"

fun fp_neg :: "fpval \<Rightarrow> fpval" where
  "fp_neg NaN = NaN"
| "fp_neg (Inf s) = Inf (\<not> s)"
| "fp_neg (Fin s a) = Fin (\<not> s) a"

text \<open>The position of a non-NaN value on the number line, in units of \<open>2 ^ -1074\<close>;
  both zeros are at 0 and the infinities lie beyond every finite double.\<close>

fun fp_key :: "fpval \<Rightarrow> int" where
  "fp_key NaN = 0"
| "fp_key (Inf s) = signed_mag s (pow2 2098)"
| "fp_key (Fin s a) = signed_mag s a"

definition isnan :: "double \<Rightarrow> bool" where
  "isnan x = (decode x = NaN)"

definition dmul :: "double \<Rightarrow> double \<Rightarrow> double" where
  "dmul x y = encode (fp_mul (decode x) (decode y))"

definition ddiv :: "double \<Rightarrow> double \<Rightarrow> double" where
  "ddiv x y = encode (fp_div (decode x) (decode y))"

definition dadd :: "double \<Rightarrow> double \<Rightarrow> double" where
  "dadd x y = encode (fp_add (decode x) (decode y))"

definition dsub :: "double \<Rightarrow> double \<Rightarrow> double" where
  "dsub x y = encode (fp_add (decode x) (fp_neg (decode y)))"

text \<open>Unary minus flips the sign bit, of a NaN too.\<close>

definition dneg :: "double \<Rightarrow> double" where
  "dneg x = x + 0x8000000000000000"

text \<open>The comparisons \<open><\<close>, \<open><=\<close> and \<open>==\<close>: false whenever an operand is a NaN.\<close>

definition dless :: "double \<Rightarrow> double \<Rightarrow> bool" where
  "dless x y = (\<not> isnan x \<and> \<not> isnan y \<and> fp_key (decode x) < fp_key (decode y))"

definition dle :: "double \<Rightarrow> double \<Rightarrow> bool" where
  "dle x y = (\<not> isnan x \<and> \<not> isnan y \<and> fp_key (decode x) \<le> fp_key (decode y))"

definition deq :: "double \<Rightarrow> double \<Rightarrow> bool" where
  "deq x y = (\<not> isnan x \<and> \<not> isnan y \<and> fp_key (decode x) = fp_key (decode y))"

text \<open>\<open>fmax\<close> of \<^verbatim>\<open><cmath>\<close>, as C11 Annex F.10.9.2 gives its body:
  \<^verbatim>\<open>{ return (isgreaterequal(x, y) || isnan(y)) ? x : y; }\<close>\<close>

definition fmax :: "double \<Rightarrow> double \<Rightarrow> double" where
  "fmax x y = (if dle y x \<or> isnan y then x else y)"

text \<open>A decimal literal \<open>p / q\<close> of the source text denotes the double nearest to it.\<close>

definition dlit :: "nat \<Rightarrow> nat \<Rightarrow> double" where
  "dlit p q = encode (round_nearest_even False (p * pow2 1074) q)"

text \<open>The literals the kernels use, by their bits: \<open>0.0\<close>, \<open>1\<close> (an \<open>int\<close> converted to
  \<open>double\<close>) and \<open>100.0\<close>.\<close>

definition d_0 :: double where
  "d_0 = 0x0000000000000000"

definition d_1 :: double where
  "d_1 = 0x3FF0000000000000"

definition d_100 :: double where
  "d_100 = 0x4059000000000000"

section \<open>The field store (\<open>atlas::FieldSet\<close>) and its fields\<close>

text \<open>
  The container is an external library; these definitions follow its access contract:
  a field set is an ordered collection of named fields, found by name or by position;
  a field has a horizontal size \<open>shape(0)\<close>, a number of levels, a rank-2 array of doubles
  and a metadata bag with \<open>has(key)\<close> and \<open>get(key, out)\<close>. Indices are \<open>idx_t\<close>, a signed
  integer, modelled as \<open>int\<close>. An array view does not check its indices; an access outside
  the array is undefined behaviour and is the result \<open>ViewOutOfBounds\<close> here.
\<close>

datatype mvalue = MBool bool | MSize "64 word"

record Field =
  shape0 :: int
  levels :: int
  vals :: "int \<Rightarrow> int \<Rightarrow> double"
  metadata :: "string \<Rightarrow> mvalue option"

type_synonym FieldSet = "(string \<times> Field) list"

datatype error =
    ValidationFailed string
  | FieldNotFound string
  | FieldIndexOutOfRange nat
  | VectorOutOfBounds
  | ViewOutOfBounds

definition and_then :: "error + 'a \<Rightarrow> ('a \<Rightarrow> error + 'b) \<Rightarrow> error + 'b" where
  "and_then m f = (case m of Inl e \<Rightarrow> Inl e | Inr v \<Rightarrow> f v)"

text \<open>\<open>fields[name]\<close>: fails when no field has the name.\<close>

definition field_by_name :: "FieldSet \<Rightarrow> string \<Rightarrow> error + Field" where
  "field_by_name flds n = (case map_of flds n of None \<Rightarrow> Inl (FieldNotFound n) | Some f \<Rightarrow> Inr f)"


text \<open>A write through a view changes the field held by the set under that name.\<close>

definition put_field :: "string \<Rightarrow> Field \<Rightarrow> FieldSet \<Rightarrow> FieldSet" where
  "put_field n f flds = map (\<lambda>(m, g). if m = n then (m, f) else (m, g)) flds"

definition in_view :: "Field \<Rightarrow> int \<Rightarrow> int \<Rightarrow> bool" where
  "in_view f i j = (0 \<le> i \<and> i < shape0 f \<and> 0 \<le> j \<and> j < levels f)"

definition view_read :: "Field \<Rightarrow> int \<Rightarrow> int \<Rightarrow> error + double" where
  "view_read f i j = (if in_view f i j then Inr (vals f i j) else Inl ViewOutOfBounds)"

definition view_write :: "Field \<Rightarrow> int \<Rightarrow> int \<Rightarrow> double \<Rightarrow> error + Field" where
  "view_write f i j v =
     (if in_view f i j then Inr (f\<lparr>vals := (vals f)(i := (vals f i)(j := v))\<rparr>)
      else Inl ViewOutOfBounds)"

definition as_bool :: "mvalue \<Rightarrow> bool" where
  "as_bool v = (case v of MBool b \<Rightarrow> b | MSize n \<Rightarrow> n \<noteq> 0)"

definition as_size :: "mvalue \<Rightarrow> 64 word" where
  "as_size v = (case v of MBool b \<Rightarrow> (if b then 1 else 0) | MSize n \<Rightarrow> n)"

definition metadata_has :: "Field \<Rightarrow> string \<Rightarrow> bool" where
  "metadata_has f k = (metadata f k \<noteq> None)"

text \<open>\<open>metadata().get(key, out)\<close>: \<open>out\<close> keeps its value when the key is absent.\<close>

definition metadata_get_bool :: "Field \<Rightarrow> string \<Rightarrow> bool \<Rightarrow> bool" where
  "metadata_get_bool f k out = (case metadata f k of None \<Rightarrow> out | Some v \<Rightarrow> as_bool v)"

definition metadata_get_size :: "Field \<Rightarrow> string \<Rightarrow> 64 word \<Rightarrow> 64 word" where
  "metadata_get_size f k out = (case metadata f k of None \<Rightarrow> out | Some v \<Rightarrow> as_size v)"

text \<open>The loop \<^verbatim>\<open>for (idx_t i = lo; i < n; ++i) body\<close>, stopping at the first failure.\<close>

function for_loop :: "int \<Rightarrow> int \<Rightarrow> (int \<Rightarrow> 's \<Rightarrow> error + 's) \<Rightarrow> 's \<Rightarrow> error + 's" where
  "for_loop i n body s =
     (if i < n then (case body i s of Inl e \<Rightarrow> Inl e | Inr s' \<Rightarrow> for_loop (i + 1) n body s')
      else Inr s)"
  by pat_completeness auto
termination
  by (relation "measure (\<lambda>(i, n, body, s). nat (n - i))") auto

declare for_loop.simps [simp del]

text \<open>
  Modelled from the spec: \<open>checkFieldSetContent\<close> and \<open>parallelFor\<close> are declared in
  \<^verbatim>\<open>mo/utils.h\<close>, which is not among the sources. The first is the validation of the
  required field names (``documented required input variable names validated before use
  (missing-field is a hard validation error, not a silent default)''), reporting the first
  missing name. The second applies the functor once to every horizontal index of the
  function space, halo included, and every level below \<open>levels\<close> (``embarrassingly parallel
  map over grid points''); the functors here write only their own point, so the order of
  the visits does not matter and the model visits them in index order.
\<close>

fun checkFieldSetContent :: "FieldSet \<Rightarrow> string list \<Rightarrow> error + unit" where
  "checkFieldSetContent flds [] = Inr ()"
| "checkFieldSetContent flds (n # ns) =
     (if map_of flds n = None then Inl (ValidationFailed n) else checkFieldSetContent flds ns)"

text \<open>Modelled from the spec: the map over the grid points, in index order.\<close>

definition parallelFor ::
  "int \<Rightarrow> int \<Rightarrow> (int \<Rightarrow> int \<Rightarrow> 's \<Rightarrow> error + 's) \<Rightarrow> 's \<Rightarrow> error + 's" where
  "parallelFor npoints nlevels functor s =
     for_loop 0 npoints (\<lambda>i. for_loop 0 nlevels (\<lambda>j. functor i j)) s"

section \<open>The kernels of \<^verbatim>\<open>mo/model2geovals_varchange.cc\<close>\<close>

text \<open>Each kernel takes the field set and returns the \<open>bool\<close> of the C++ function with the
  field set as it has left it, or the failure that ended it.\<close>

definition evalTotalMassMoistAir :: "FieldSet \<Rightarrow> error + (bool \<times> FieldSet)" where
  "evalTotalMassMoistAir flds =
     and_then (checkFieldSetContent flds [''m_v'', ''m_ci'', ''m_cl'', ''m_r'', ''m_t'']) (\<lambda>_.
     and_then (field_by_name flds ''m_v'') (\<lambda>ds_m_v.
     and_then (field_by_name flds ''m_ci'') (\<lambda>ds_m_ci.
     and_then (field_by_name flds ''m_cl'') (\<lambda>ds_m_cl.
     and_then (field_by_name flds ''m_r'') (\<lambda>ds_m_r.
     and_then (field_by_name flds ''m_t'') (\<lambda>ds_m_t.
     and_then (parallelFor (shape0 ds_m_t) (levels ds_m_t)
        (\<lambda>i j t.
           and_then (view_read ds_m_v i j) (\<lambda>v.
           and_then (view_read ds_m_ci i j) (\<lambda>ci.
           and_then (view_read ds_m_cl i j) (\<lambda>cl.
           and_then (view_read ds_m_r i j) (\<lambda>r.
           view_write t i j (dadd (dadd (dadd (dadd d_1 v) ci) cl) r))))))
        ds_m_t) (\<lambda>m_t'.
     Inr (True, put_field ''m_t'' m_t' flds))))))))"



definition evalRelativeHumidity :: "FieldSet \<Rightarrow> error + (bool \<times> FieldSet)" where
  "evalRelativeHumidity flds =
     and_then (checkFieldSetContent flds [''specific_humidity'', ''qsat'', ''relative_humidity'']) (\<lambda>_.
     and_then (field_by_name flds ''relative_humidity'') (\<lambda>rh.
     (let cap_super_sat =
            (if metadata_has rh ''cap_super_sat''
             then metadata_get_bool rh ''cap_super_sat'' False else False)
      in
     and_then (field_by_name flds ''specific_humidity'') (\<lambda>qView.
     and_then (field_by_name flds ''qsat'') (\<lambda>qsatView.
     and_then (parallelFor (shape0 rh) (levels rh)
        (\<lambda>i j t.
           and_then (view_read qView i j) (\<lambda>q.
           and_then (view_read qsatView i j) (\<lambda>qsat.
           and_then (view_write t i j (fmax (dmul (ddiv q qsat) d_100) d_0)) (\<lambda>t1.
           and_then (view_read t1 i j) (\<lambda>r.
           view_write t1 i j (if cap_super_sat \<and> dless d_100 r then d_100 else r))))))
        rh) (\<lambda>rh'.
     Inr (True, put_field ''relative_humidity'' rh' flds)))))))"

definition evalTotalRelativeHumidity :: "FieldSet \<Rightarrow> error + (bool \<times> FieldSet)" where
  "evalTotalRelativeHumidity flds =
     and_then (checkFieldSetContent flds
        [''specific_humidity'', ''mass_content_of_cloud_liquid_water_in_atmosphere_layer'',
         ''mass_content_of_cloud_ice_in_atmosphere_layer'', ''qrain'', ''qsat'', ''rht'']) (\<lambda>_.
     and_then (field_by_name flds ''specific_humidity'') (\<lambda>qView.
     and_then (field_by_name flds ''mass_content_of_cloud_liquid_water_in_atmosphere_layer'') (\<lambda>qclView.
     and_then (field_by_name flds ''mass_content_of_cloud_ice_in_atmosphere_layer'') (\<lambda>qciView.
     and_then (field_by_name flds ''qrain'') (\<lambda>qrainView.
     and_then (field_by_name flds ''qsat'') (\<lambda>qsatView.
     and_then (field_by_name flds ''rht'') (\<lambda>rhtView.
     and_then (parallelFor (shape0 rhtView) (levels rhtView)
        (\<lambda>i j t.
           and_then (view_read qView i j) (\<lambda>q.
           and_then (view_read qclView i j) (\<lambda>qcl.
           and_then (view_read qciView i j) (\<lambda>qci.
           and_then (view_read qrainView i j) (\<lambda>qrain.
           and_then (view_read qsatView i j) (\<lambda>qsat.
           and_then (view_write t i j
              (dmul (ddiv (dadd (dadd (dadd q qcl) qci) qrain) qsat) d_100)) (\<lambda>t1.
           and_then (view_read t1 i j) (\<lambda>r.
           if dless r d_0 then view_write t1 i j d_0 else Inr t1))))))))
        rhtView) (\<lambda>rht'.
     Inr (True, put_field ''rht'' rht' flds)))))))))"




definition evalAirTemperature :: "FieldSet \<Rightarrow> error + (bool \<times> FieldSet)" where
  "evalAirTemperature flds =
     and_then (checkFieldSetContent flds [''theta'', ''exner'', ''air_temperature'']) (\<lambda>_.
     and_then (field_by_name flds ''theta'') (\<lambda>ds_theta.
     and_then (field_by_name flds ''exner'') (\<lambda>ds_exner.
     and_then (field_by_name flds ''air_temperature'') (\<lambda>ds_atemp.
     and_then (parallelFor (shape0 ds_atemp) (levels ds_atemp)
        (\<lambda>i j t.
           and_then (view_read ds_theta i j) (\<lambda>theta.
           and_then (view_read ds_exner i j) (\<lambda>exner.
           view_write t i j (dmul theta exner))))
        ds_atemp) (\<lambda>atemp'.
     Inr (True, put_field ''air_temperature'' atemp' flds))))))"


text \<open>
  The physical constants of \<open>mo::Constants\<close> and the functions \<open>log\<close> and \<open>pow\<close> of
  \<^verbatim>\<open><cmath>\<close> are not defined in the sources (and the library functions are not
  correctly rounded), so the two kernels that use them take them as parameters.
\<close>

record Constants =
  grav :: double
  rd :: double
  Lclr :: double
  c_virtual :: double
  cp :: double
  p_zero :: double
  rd_over_cp :: double
  deps :: double

record Libm =
  libm_log :: "double \<Rightarrow> double"
  libm_pow :: "double \<Rightarrow> double \<Rightarrow> double"


text \<open>
  In \<open>evalParamAParamB\<close> the local \<open>std::size_t blindex\<close> is declared without a value;
  \<open>blindex_uninit\<close> stands for what it holds then. The branch on
  \<^verbatim>\<open>!fields["height"].metadata().has("boundary_layer_index")\<close> only writes to the error
  log, which the model does not keep; the \<open>get\<close> that follows it is not guarded.
\<close>

definition evalParamAParamB ::
  "Constants \<Rightarrow> Libm \<Rightarrow> 64 word \<Rightarrow> FieldSet \<Rightarrow> error + (bool \<times> FieldSet)" where
  "evalParamAParamB C M blindex_uninit flds =
     and_then (checkFieldSetContent flds
        [''height'', ''height_levels'', ''air_pressure_levels_minus_one'',
         ''specific_humidity'', ''param_a'', ''param_b'']) (\<lambda>_.
     and_then (field_by_name flds ''height'') (\<lambda>height.
     (let blindex = metadata_get_size height ''boundary_layer_index'' blindex_uninit;
          bl = uint blindex;
          bl1 = uint (blindex + 1)
      in
     and_then (field_by_name flds ''height'') (\<lambda>heightView.
     and_then (field_by_name flds ''height_levels'') (\<lambda>heightLevelsView.
     and_then (field_by_name flds ''air_pressure_levels_minus_one'') (\<lambda>pressureLevelsView.
     and_then (field_by_name flds ''specific_humidity'') (\<lambda>specificHumidityView.
     and_then (field_by_name flds ''param_a'') (\<lambda>param_aView.
     and_then (field_by_name flds ''param_b'') (\<lambda>param_bView.
     (let exp_pmsh = ddiv (dmul (Lclr C) (rd C)) (grav C) in
     and_then (for_loop 0 (shape0 param_aView)
        (\<lambda>jn (pa, pb).
           and_then (view_read heightLevelsView jn bl1) (\<lambda>hl1.
           and_then (view_read heightLevelsView jn bl) (\<lambda>hl0.
           and_then (view_read pressureLevelsView jn bl1) (\<lambda>p1.
           and_then (view_read pressureLevelsView jn bl) (\<lambda>p0.
           and_then (view_read specificHumidityView jn bl) (\<lambda>q.
           and_then (view_read heightView jn bl) (\<lambda>h.
           and_then (view_read heightLevelsView jn 0) (\<lambda>hs.
           and_then (view_read pressureLevelsView jn 0) (\<lambda>ps.
           (let t_bl0 = ddiv (dmul (ddiv (dneg (grav C)) (rd C)) (dsub hl1 hl0))
                             (libm_log M (ddiv p1 p0));
                t_bl = ddiv t_bl0 (dadd d_1 (dmul (c_virtual C) q));
                t_msh = dadd t_bl (dmul (Lclr C) (dsub h hs))
            in
           and_then (view_write pa jn 0 (dadd hs (ddiv t_msh (Lclr C)))) (\<lambda>pa'.
           and_then (view_write pb jn 0
              (ddiv t_msh (dmul (libm_pow M ps exp_pmsh) (Lclr C)))) (\<lambda>pb'.
           Inr (pa', pb')))))))))))))
        (param_aView, param_bView)) (\<lambda>(pa', pb').
     Inr (True, put_field ''param_b'' pb' (put_field ''param_a'' pa' flds)))))))))))))"

text \<open>Reading a kernel's result: the \<open>bool\<close> it returned, and an element of a field of
  the field set it left.\<close>

definition returned :: "error + (bool \<times> FieldSet) \<Rightarrow> bool option" where
  "returned r = (case r of Inl e \<Rightarrow> None | Inr (b, flds) \<Rightarrow> Some b)"

definition result_cell :: "error + (bool \<times> FieldSet) \<Rightarrow> string \<Rightarrow> int \<Rightarrow> int \<Rightarrow> double option" where
  "result_cell r n i j =
     (case r of
        Inl e \<Rightarrow> None
      | Inr (b, flds) \<Rightarrow> (case map_of flds n of None \<Rightarrow> None | Some f \<Rightarrow> Some (vals f i j)))"


text \<open>\<open>covers f t\<close>: the array of \<open>f\<close> has at least the extents of the array of \<open>t\<close>, so
  every index of \<open>t\<close> is an index of \<open>f\<close>.\<close>

definition covers :: "Field \<Rightarrow> Field \<Rightarrow> bool" where
  "covers f t = (shape0 t \<le> shape0 f \<and> levels t \<le> levels f)"

text \<open>A field of one column and one level holding \<open>v\<close>, without metadata.\<close>

definition point_field :: "double \<Rightarrow> Field" where
  "point_field v = \<lparr>shape0 = 1, levels = 1, vals = (\<lambda>i j. v), metadata = (\<lambda>k. None)\<rparr>"

section \<open>Recipe parameters (\<^verbatim>\<open>VaderParameters.h\<close>, \<^verbatim>\<open>recipes/AirPressureToKappa.h\<close>)\<close>

text \<open>
  A parameters class declares its parameters with the templates of \<open>oops\<close>: a
  \<open>RequiredParameter\<close> must be present in the configuration it is read from, a
  \<open>Parameter\<close> has a default and an \<open>OptionalParameter\<close> may be absent. A class is modelled
  by the list of its declarations, a configuration by the keys it holds, and reading the
  class from a configuration fails at the first required key that is absent.
\<close>

datatype param_kind = RequiredParameter | Parameter | OptionalParameter

type_synonym param_decl = "string \<times> param_kind"

datatype param_error = MissingRequiredParameter string

fun validateAndDeserialize :: "param_decl list \<Rightarrow> string list \<Rightarrow> param_error + unit" where
  "validateAndDeserialize [] conf = Inr ()"
| "validateAndDeserialize ((k, RequiredParameter) # ps) conf =
     (if k \<in> set conf then validateAndDeserialize ps conf else Inl (MissingRequiredParameter k))"
| "validateAndDeserialize ((k, Parameter) # ps) conf = validateAndDeserialize ps conf"
| "validateAndDeserialize ((k, OptionalParameter) # ps) conf = validateAndDeserialize ps conf"

definition has_required_parameter :: "param_decl list \<Rightarrow> bool" where
  "has_required_parameter ps = list_ex (\<lambda>d. snd d = RequiredParameter) ps"

definition VaderParameters :: "param_decl list" where
  "VaderParameters = [(''cookbook'', Parameter), (''recipe parameters'', OptionalParameter)]"

text \<open>\<open>AirPressureToKappa_AParameters\<close> extends \<open>RecipeParametersBase\<close>, which is not among
  the sources: its declarations are the argument \<open>base\<close>.\<close>

definition AirPressureToKappa_AParameters :: "param_decl list \<Rightarrow> param_decl list" where
  "AirPressureToKappa_AParameters base =
     base @ [(''recipe name'', RequiredParameter), (''kappa'', Parameter)]"

section \<open>The recipe base class (\<^verbatim>\<open>RecipeBase.h\<close>)\<close>

text \<open>
  A recipe object is its implementations of the pure virtual functions \<open>name\<close>,
  \<open>ingredients\<close> and \<open>execute\<close>, and for each of the two virtual functions with a body in
  the base class, \<open>requiresSetup\<close> and \<open>setup\<close>, either an override or nothing. A call
  dispatches to the override when there is one and to the body of the base class otherwise:
  \<^verbatim>\<open>virtual bool requiresSetup() { return false; }\<close> and
  \<^verbatim>\<open>virtual bool setup(atlas::FieldSet *) { return true; }\<close>.
\<close>

record Recipe =
  name_impl :: string
  ingredients_impl :: "string list"
  execute_impl :: "FieldSet \<Rightarrow> bool \<times> FieldSet"
  requiresSetup_override :: "bool option"
  setup_override :: "(FieldSet \<Rightarrow> bool \<times> FieldSet) option"

definition requiresSetup :: "Recipe \<Rightarrow> bool" where
  "requiresSetup r = (case requiresSetup_override r of None \<Rightarrow> False | Some b \<Rightarrow> b)"

definition setup_recipe :: "Recipe \<Rightarrow> FieldSet \<Rightarrow> bool \<times> FieldSet" where
  "setup_recipe r flds = (case setup_override r of None \<Rightarrow> (True, flds) | Some f \<Rightarrow> f flds)"

section \<open>The resolver and the executor\<close>

text \<open>
  Modelled from the spec: the resolver and the executor (the Vader class) are not among
  the sources, so this section follows sections 2, 3, 4.1 to 4.4 and 6 of the specification.
  A unit has the identity attributes \<open>{name, product variable, ordered list of ingredient
  variables, requiresSetup flag}\<close> and the capability set \<open>{setup, executeNL, executeTL,
  executeAD}\<close>; a unit that provides only NL has no \<open>executeTL\<close> and no \<open>executeAD\<close>.
  The registry gives the unit a name constructs (\<open>create\<close>, which fails with \<open>UnknownUnit\<close>
  when the name is absent); the cookbook maps a variable to the ordered list of the names
  of the candidate units ``to try when that variable must be derived''.
\<close>

record Unit =
  uname :: string
  uproduct :: string
  uingredients :: "string list"
  urequiresSetup :: bool
  usetup :: "FieldSet \<Rightarrow> bool \<times> FieldSet"
  executeNL :: "FieldSet \<Rightarrow> bool \<times> FieldSet"
  executeTL :: "(FieldSet \<Rightarrow> FieldSet \<Rightarrow> bool \<times> FieldSet) option"
  executeAD :: "(FieldSet \<Rightarrow> FieldSet \<Rightarrow> bool \<times> FieldSet) option"

type_synonym Registry = "(string \<times> Unit) list"

type_synonym Cookbook = "(string \<times> string list) list"

text \<open>
  Modelled from the spec: the resolution-time errors of the taxonomy of section 6.
  \<open>UnresolvableVariable\<close> names the attempted candidates with their failure reasons; a
  candidate fails because its product is another variable than the one wanted, or because
  one of its ingredients failed to resolve.
\<close>

datatype resolve_error =
    UnknownUnit string
  | UnresolvableVariable string "(string \<times> candidate_failure) list"
  | CyclicDependency string "string list"
and candidate_failure =
    ProducesOther string
  | IngredientFailure resolve_error

record resolution =
  resolved :: "string list"
  plan :: "Unit list"

text \<open>
  Modelled from the spec: which failure of a candidate's ingredients lets the next
  candidate be tried. ``No candidate chain found'' does (steps 3 and 5); a cycle is the
  failure of the resolution (Scenario 3: a self-referential cookbook entry gives
  \<open>CyclicDependency\<close>), and so is an unknown unit name (a configuration error; no
  resolution-time error is ``silently swallowed'').
\<close>

fun next_candidate :: "resolve_error \<Rightarrow> bool" where
  "next_candidate (UnresolvableVariable v reasons) = True"
| "next_candidate (UnknownUnit n) = False"
| "next_candidate (CyclicDependency v stack) = False"

text \<open>
  Modelled from the spec: section 4.3, steps 1 to 5. \<open>resolveVariable\<close> is steps 1 to 3 for
  one variable, with the variables being resolved higher in the call stack in \<open>stack\<close>;
  \<open>tryCandidates\<close> is steps 4 and 5, trying the candidates in cookbook order, each from the
  state \<open>st\<close> the variable was entered with (so what a failed candidate resolved is rolled
  back), and collecting the failure reasons; \<open>resolveIngredients\<close> resolves the ingredients
  of a candidate in order. A candidate is accepted for \<open>v\<close> only if it is a unit whose
  product is \<open>v\<close>.
\<close>

function resolveVariable ::
    "Registry \<Rightarrow> Cookbook \<Rightarrow> string list \<Rightarrow> string list \<Rightarrow> resolution \<Rightarrow> string
      \<Rightarrow> resolve_error + resolution"
  and tryCandidates ::
    "Registry \<Rightarrow> Cookbook \<Rightarrow> string list \<Rightarrow> string list \<Rightarrow> resolution \<Rightarrow> string
      \<Rightarrow> string list \<Rightarrow> (string \<times> candidate_failure) list \<Rightarrow> resolve_error + resolution"
  and resolveIngredients ::
    "Registry \<Rightarrow> Cookbook \<Rightarrow> string list \<Rightarrow> string list \<Rightarrow> resolution \<Rightarrow> string list
      \<Rightarrow> resolve_error + resolution"
where
  "resolveVariable reg C A stack st v =
     (if v \<in> set A \<or> v \<in> set (resolved st) then Inr st
      else if v \<in> set stack then Inl (CyclicDependency v stack)
      else case map_of C v of
             None \<Rightarrow> Inl (UnresolvableVariable v [])
           | Some candidates \<Rightarrow> tryCandidates reg C A (v # stack) st v candidates [])"
| "tryCandidates reg C A stack st v [] tried = Inl (UnresolvableVariable v (rev tried))"
| "tryCandidates reg C A stack st v (n # ns) tried =
     (case map_of reg n of
        None \<Rightarrow> Inl (UnknownUnit n)
      | Some u \<Rightarrow>
          (if uproduct u \<noteq> v
           then tryCandidates reg C A stack st v ns ((n, ProducesOther (uproduct u)) # tried)
           else case resolveIngredients reg C A stack st (uingredients u) of
                  Inl e \<Rightarrow>
                    (if next_candidate e
                     then tryCandidates reg C A stack st v ns ((n, IngredientFailure e) # tried)
                     else Inl e)
                | Inr st' \<Rightarrow> Inr \<lparr>resolved = resolved st' @ [v], plan = plan st' @ [u]\<rparr>))"
| "resolveIngredients reg C A stack st [] = Inr st"
| "resolveIngredients reg C A stack st (i # is) =
     (case resolveVariable reg C A stack st i of
        Inl e \<Rightarrow> Inl e
      | Inr st' \<Rightarrow> resolveIngredients reg C A stack st' is)"
  by pat_completeness auto
termination
  apply (relation "inv_image (less_than <*lex*> less_than <*lex*> less_than)
        (\<lambda>x. case x of
           Inl (reg, C, A, stack, st, v) \<Rightarrow> (card (fst ` set C - set stack), 0, 0)
         | Inr (Inl (reg, C, A, stack, st, v, ns, tried)) \<Rightarrow>
             (card (fst ` set C - set stack), 2, length ns)
         | Inr (Inr (reg, C, A, stack, st, is)) \<Rightarrow>
             (card (fst ` set C - set stack), 1, length is))")
  apply (auto dest!: map_of_SomeD intro!: psubset_card_mono
          simp: psubset_eq set_eq_iff image_iff Bex_def)
  apply blast
  done

text \<open>Modelled from the spec: ``the top-level call resolves every variable in \<open>R\<close> this way and returns the
  concatenated, de-duplicated plan'': a unit that stands twice keeps its first place.\<close>

definition dedup :: "'a list \<Rightarrow> 'a list" where
  "dedup xs = rev (remdups (rev xs))"

definition resolve :: "Registry \<Rightarrow> string list \<Rightarrow> string list \<Rightarrow> Cookbook \<Rightarrow> resolve_error + Unit list" where
  "resolve reg A R C =
     (case resolveIngredients reg C A [] \<lparr>resolved = [], plan = []\<rparr> R of
        Inl e \<Rightarrow> Inl e
      | Inr st \<Rightarrow> Inr (dedup (plan st)))"

text \<open>Modelled from the spec: the invariants of a plan (section 3). Every ingredient of a unit is available at
  the start or is the product of an earlier unit, and no two units have the same product.\<close>

fun ingredients_before_product :: "string list \<Rightarrow> Unit list \<Rightarrow> bool" where
  "ingredients_before_product avail [] = True"
| "ingredients_before_product avail (u # us) =
     (set (uingredients u) \<subseteq> set avail \<and> ingredients_before_product (uproduct u # avail) us)"

definition valid_plan :: "string list \<Rightarrow> Unit list \<Rightarrow> bool" where
  "valid_plan A p = (ingredients_before_product A p \<and> distinct (map uproduct p))"

text \<open>Modelled from the spec: what a failure of the resolver reports (section 6). An
  unknown unit is a name the registry does not have; an unresolvable variable is not
  available, and the reasons name the candidates the cookbook lists for it, in order (none
  when the cookbook has no entry); a cycle names a variable of the cycle path.\<close>

fun documented_error :: "Registry \<Rightarrow> string list \<Rightarrow> Cookbook \<Rightarrow> resolve_error \<Rightarrow> bool" where
  "documented_error reg A C (UnknownUnit n) = (map_of reg n = None)"
| "documented_error reg A C (UnresolvableVariable v reasons) =
     (v \<notin> set A \<and> map fst reasons = (case map_of C v of None \<Rightarrow> [] | Some candidates \<Rightarrow> candidates))"
| "documented_error reg A C (CyclicDependency v stack) = (v \<in> set stack)"

text \<open>
  Modelled from the spec: section 4.4. The executor runs a plan on a field store in one of the three modes; the
  store is changed in place, so the result is the error, if any, with the state reached.
  By section 4.2 a plan that holds a unit providing only NL is rejected in the modes TL
  and AD ``with a specific error rather than silently skip them'': \<open>NLOnlyUnitInPlan\<close>.
\<close>

datatype Mode = NL | TL | AD

datatype exec_error =
    NLOnlyUnitInPlan string
  | ExecutionFailure string string
  | MissingTrajectory

record exec_state =
  store :: FieldSet
  trajectory :: FieldSet
  setup_done :: "string list"

definition nl_only :: "Unit \<Rightarrow> bool" where
  "nl_only u = (executeTL u = None \<or> executeAD u = None)"

definition execute_unit :: "Mode \<Rightarrow> Unit \<Rightarrow> exec_state \<Rightarrow> exec_error option \<times> exec_state" where
  "execute_unit m u st =
     (case (case m of
              NL \<Rightarrow> Some (executeNL u (store st))
            | TL \<Rightarrow> map_option (\<lambda>f. f (store st) (trajectory st)) (executeTL u)
            | AD \<Rightarrow> map_option (\<lambda>f. f (store st) (trajectory st)) (executeAD u)) of
        None \<Rightarrow> (Some (NLOnlyUnitInPlan (uname u)), st)
      | Some (ok, flds) \<Rightarrow>
          (if ok then None else Some (ExecutionFailure (uname u) (uproduct u)), st\<lparr>store := flds\<rparr>))"

fun run_forward :: "Mode \<Rightarrow> Unit list \<Rightarrow> exec_state \<Rightarrow> exec_error option \<times> exec_state" where
  "run_forward m [] st = (None, st)"
| "run_forward m (u # us) st =
     (if urequiresSetup u \<and> uname u \<notin> set (setup_done st)
      then (case usetup u (if m = NL then store st else trajectory st) of
              (ok, flds) \<Rightarrow>
                (let st1 = (if m = NL then st\<lparr>store := flds\<rparr> else st\<lparr>trajectory := flds\<rparr>)
                 in if ok
                    then (case execute_unit m u (st1\<lparr>setup_done := uname u # setup_done st1\<rparr>) of
                            (None, st2) \<Rightarrow> run_forward m us st2
                          | (Some e, st2) \<Rightarrow> (Some e, st2))
                    else (Some (ExecutionFailure (uname u) (uproduct u)), st1)))
      else (case execute_unit m u st of
              (None, st2) \<Rightarrow> run_forward m us st2
            | (Some e, st2) \<Rightarrow> (Some e, st2)))"

fun run_adjoint :: "Unit list \<Rightarrow> exec_state \<Rightarrow> exec_error option \<times> exec_state" where
  "run_adjoint [] st = (None, st)"
| "run_adjoint (u # us) st =
     (if urequiresSetup u \<and> uname u \<notin> set (setup_done st) then (Some MissingTrajectory, st)
      else (case execute_unit AD u st of
              (None, st2) \<Rightarrow> run_adjoint us st2
            | (Some e, st2) \<Rightarrow> (Some e, st2)))"

definition executePlan :: "Mode \<Rightarrow> Unit list \<Rightarrow> exec_state \<Rightarrow> exec_error option \<times> exec_state" where
  "executePlan m p st =
     (case (if m = NL then None else find nl_only p) of
        Some u \<Rightarrow> (Some (NLOnlyUnitInPlan (uname u)), st)
      | None \<Rightarrow> (if m = AD then run_adjoint (rev p) st else run_forward m p st))"

text \<open>The flag \<open>cap_super_sat\<close> as \<open>evalRelativeHumidity\<close> reads it from the metadata of the
  \<open>relative_humidity\<close> field: false when the key is absent.\<close>

definition cap_super_sat_of :: "Field \<Rightarrow> bool" where
  "cap_super_sat_of rh = (case metadata rh ''cap_super_sat'' of None \<Rightarrow> False | Some v \<Rightarrow> as_bool v)"

text \<open>The invariant of the resolver's state: the variables resolved so far are the
  products of the units placed so far, in order, each once and none of them available at
  the start, and the units placed so far are in dependency order.\<close>

definition resolution_ok :: "string list \<Rightarrow> resolution \<Rightarrow> bool" where
  "resolution_ok A st =
     (map uproduct (plan st) = resolved st \<and> distinct (resolved st) \<and>
      set (resolved st) \<inter> set A = {} \<and> ingredients_before_product A (plan st))"

section \<open>Example inputs\<close>

text \<open>Five fields of one point: \<open>m_v = 0.5\<close> and the others \<open>0.0\<close>.\<close>

definition total_mass_example :: FieldSet where
  "total_mass_example =
     [(''m_v'', point_field 0x3FE0000000000000), (''m_ci'', point_field d_0),
      (''m_cl'', point_field d_0), (''m_r'', point_field d_0), (''m_t'', point_field d_0)]"

text \<open>Scenario 1 of the specification: \<open>theta = [300.0]\<close>, \<open>exner = [0.95]\<close> at one grid
  point and level, and an \<open>air_temperature\<close> field to receive the product.\<close>

definition scenario_1 :: FieldSet where
  "scenario_1 =
     [(''theta'', point_field (dlit 300 1)), (''exner'', point_field (dlit 95 100)),
      (''air_temperature'', point_field d_0)]"

text \<open>A humidity input of one point: \<open>specific_humidity = q\<close>, \<open>qsat = 1.0\<close>, and a
  \<open>relative_humidity\<close> field with the metadata \<open>meta\<close>. The doubles \<open>3.0\<close> and \<open>300.0\<close>.\<close>

definition humidity_example :: "double \<Rightarrow> (string \<Rightarrow> mvalue option) \<Rightarrow> FieldSet" where
  "humidity_example q meta =
     [(''specific_humidity'', point_field q), (''qsat'', point_field d_1),
      (''relative_humidity'', (point_field d_0)\<lparr>metadata := meta\<rparr>)]"

definition d_3 :: double where
  "d_3 = dlit 3 1"

definition d_300 :: double where
  "d_300 = dlit 300 1"

text \<open>A total-humidity input of one point: \<open>q = 3.0\<close>, no cloud water, ice or rain,
  \<open>qsat = 1.0\<close>, and an \<open>rht\<close> field with the metadata \<open>meta\<close>.\<close>

definition total_humidity_example :: "(string \<Rightarrow> mvalue option) \<Rightarrow> FieldSet" where
  "total_humidity_example meta =
     [(''specific_humidity'', point_field d_3),
      (''mass_content_of_cloud_liquid_water_in_atmosphere_layer'', point_field d_0),
      (''mass_content_of_cloud_ice_in_atmosphere_layer'', point_field d_0),
      (''qrain'', point_field d_0),
      (''qsat'', point_field d_1),
      (''rht'', (point_field d_0)\<lparr>metadata := meta\<rparr>)]"

text \<open>A recipe that implements the pure virtual functions and overrides nothing else.\<close>

definition plain_recipe :: Recipe where
  "plain_recipe =
     \<lparr>name_impl = ''PlainRecipe'', ingredients_impl = [''theta'', ''exner''],
      execute_impl = (\<lambda>flds. (True, flds)),
      requiresSetup_override = None, setup_override = None\<rparr>"

text \<open>Inputs for the two kernels that take the constants: six fields for
  \<open>evalParamAParamB\<close> whose \<open>height\<close> field has no metadata, and a field set for
  \<open>evalAirPressureLevels\<close> without the field \<open>height_levels\<close>.\<close>

definition two_level_field :: "double \<Rightarrow> Field" where
  "two_level_field v = \<lparr>shape0 = 1, levels = 2, vals = (\<lambda>i j. v), metadata = (\<lambda>k. None)\<rparr>"

definition missing_index_input :: FieldSet where
  "missing_index_input =
     [(''height'', two_level_field d_1), (''height_levels'', two_level_field d_1),
      (''air_pressure_levels_minus_one'', two_level_field d_1),
      (''specific_humidity'', two_level_field d_0),
      (''param_a'', point_field d_0), (''param_b'', point_field d_0)]"


text \<open>Units for the examples, with executions that succeed and change nothing: \<open>tlad\<close>
  says whether TL and AD are provided. \<open>kappa_unit\<close> provides only NL, as the header of
  \<open>AirPressureToKappa_A\<close> says of it (``It does not provide TL/AD algorithms'').\<close>

definition simple_unit :: "string \<Rightarrow> string \<Rightarrow> string list \<Rightarrow> bool \<Rightarrow> Unit" where
  "simple_unit n p ingr tlad =
     \<lparr>uname = n, uproduct = p, uingredients = ingr, urequiresSetup = False,
      usetup = (\<lambda>flds. (True, flds)), executeNL = (\<lambda>flds. (True, flds)),
      executeTL = (if tlad then Some (\<lambda>inc traj. (True, inc)) else None),
      executeAD = (if tlad then Some (\<lambda>sens traj. (True, sens)) else None)\<rparr>"

definition kappa_unit :: Unit where
  "kappa_unit = simple_unit ''AirPressureToKappa_A'' ''air_pressure_to_kappa'' [''air_pressure''] False"

definition initial_state :: exec_state where
  "initial_state = \<lparr>store = scenario_1, trajectory = scenario_1, setup_done = []\<rparr>"

text \<open>A registry and a cookbook with the three entries of the default cookbook of
  \<^verbatim>\<open>VaderParameters.h\<close>; a cookbook that lists under \<open>y\<close> a unit whose product is \<open>x\<close>; and
  a unit whose only ingredient is its own product (Scenario 3).\<close>

definition example_registry :: Registry where
  "example_registry =
     [(''AirTemperature_A'', simple_unit ''AirTemperature_A'' ''air_temperature'' [''theta'', ''exner''] True),
      (''TempToVTemp'', simple_unit ''TempToVTemp'' ''virtual_temperature''
          [''air_temperature'', ''specific_humidity''] True),
      (''TempToPTemp'', simple_unit ''TempToPTemp'' ''potential_temperature''
          [''air_temperature'', ''surface_pressure''] True)]"

definition example_cookbook :: Cookbook where
  "example_cookbook =
     [(''potential_temperature'', [''TempToPTemp'']),
      (''virtual_temperature'', [''TempToVTemp'']),
      (''air_temperature'', [''AirTemperature_A''])]"

definition clash_registry :: Registry where
  "clash_registry =
     [(''U1'', simple_unit ''U1'' ''x'' [] True), (''U2'', simple_unit ''U2'' ''x'' [] True)]"

definition clash_cookbook :: Cookbook where
  "clash_cookbook = [(''x'', [''U1'']), (''y'', [''U2''])]"

definition cyclic_registry :: Registry where
  "cyclic_registry = [(''A'', simple_unit ''A'' ''x'' [''x''] True)]"

definition cyclic_cookbook :: Cookbook where
  "cyclic_cookbook = [(''x'', [''A''])]"



section \<open>Properties\<close>

subsection \<open>Rounding and evaluation of double arithmetic\<close>

lemma pow2_pos: "0 < pow2 n"
  by (simp add: pow2_def)

declare bit_length.simps [simp del]

lemma bit_length_0 [simp]: "bit_length 0 = 0"
  by (simp add: bit_length.simps)

lemma bit_length_pos: "0 < n \<Longrightarrow> bit_length n = Suc (bit_length (n div 2))"
  by (simp add: bit_length.simps)

lemma bit_length_numeral [simp]:
  "bit_length (numeral k) = Suc (bit_length (numeral k div 2))"
  by (simp add: bit_length.simps)

lemma bit_length_Suc_0 [simp]: "bit_length (Suc 0) = Suc 0"
  by (simp add: bit_length.simps)

lemma bit_length_bounds:
  "0 < n \<Longrightarrow> 2 ^ (bit_length n - 1) \<le> n \<and> n < 2 ^ bit_length n"
proof (induction n rule: bit_length.induct)
  case (1 n)
  show ?case
  proof (cases "n div 2 = 0")
    case True
    with 1(2) have "n = 1" by (simp add: div_eq_0_iff) 
    then show ?thesis by (simp add: bit_length_pos)
  next
    case False
    then have pos: "0 < n div 2" by simp
    from 1(1) 1(2) pos have ih: "2 ^ (bit_length (n div 2) - 1) \<le> n div 2" "n div 2 < 2 ^ bit_length (n div 2)"
      by simp_all
    have b: "bit_length n = Suc (bit_length (n div 2))" using 1(2) by (simp add: bit_length_pos)
    have bp: "0 < bit_length (n div 2)" using pos by (simp add: bit_length_pos)
    then obtain k where k: "bit_length (n div 2) = Suc k" by (cases "bit_length (n div 2)") auto
    from ih k have "2 ^ k \<le> n div 2" "n div 2 < 2 * 2 ^ k" by simp_all
    then have "2 * 2 ^ k \<le> n" "n < 2 * (2 * 2 ^ k)" by linarith+
    then show ?thesis by (simp add: b k)
  qed
qed

lemma bit_length_unique:
  assumes "2 ^ k \<le> n" "n < 2 ^ Suc k"
  shows "bit_length n = Suc k"
proof -
  have pos: "0 < n" using assms(1) by (metis gr0I not_less_eq_eq le_zero_eq power_eq_0_iff zero_neq_numeral)
  from bit_length_bounds[OF pos] have b: "2 ^ (bit_length n - 1) \<le> n" "n < 2 ^ bit_length n" by simp_all
  have "(2::nat) ^ k < 2 ^ bit_length n" using assms(1) b(2) by linarith
  then have 1: "k < bit_length n" using power_less_imp_less_exp[of 2 k "bit_length n"] by simp
  have "(2::nat) ^ (bit_length n - 1) < 2 ^ Suc k" using assms(2) b(1) by linarith
  then have 2: "bit_length n - 1 < Suc k" using power_less_imp_less_exp[of 2 "bit_length n - 1" "Suc k"] by simp
  from 1 2 show ?thesis by linarith
qed

lemma bit_length_scaled_div:
  assumes q: "0 < q" and x: "0 < p div q"
  shows "bit_length ((p * 2 ^ c) div q) = bit_length (p div q) + c"
proof -
  from bit_length_bounds[OF x] have b: "2 ^ (bit_length (p div q) - 1) \<le> p div q" "p div q < 2 ^ bit_length (p div q)"
    by simp_all
  have bp: "0 < bit_length (p div q)" using x by (simp add: bit_length_pos)
  then obtain k where k: "bit_length (p div q) = Suc k" by (cases "bit_length (p div q)") auto
  from b k have lo: "2 ^ k * q \<le> p" and hi: "p < 2 ^ Suc k * q"
    using q by (simp_all add: less_eq_div_iff_mult_less_eq div_less_iff_less_mult)
  have "2 ^ (k + c) * q \<le> p * 2 ^ c"
    using lo by (simp add: power_add mult.assoc mult.left_commute[of _ q] )
  then have lo': "2 ^ (k + c) \<le> (p * 2 ^ c) div q" using q by (simp add: less_eq_div_iff_mult_less_eq)
  have "p * 2 ^ c < 2 ^ Suc k * q * 2 ^ c" using hi by simp
  then have "p * 2 ^ c < 2 ^ Suc (k + c) * q" by (simp add: power_add ac_simps)
  then have hi': "(p * 2 ^ c) div q < 2 ^ Suc (k + c)" using q by (simp add: div_less_iff_less_mult)
  from bit_length_unique[OF lo' hi'] k show ?thesis by simp
qed

lemma pow2_add: "pow2 (a + b) = pow2 a * pow2 b"
  by (simp add: pow2_def power_add)

lemma pow2_mono: "a \<le> b \<Longrightarrow> pow2 a \<le> pow2 b"
  by (simp add: pow2_def)

lemma round_nearest_even_scaled:
  assumes big: "2 ^ 52 \<le> p div q" and q: "0 < q"
  shows "round_nearest_even s (p * pow2 c) q =
     (let t = bit_length (p div q) - 53; d = q * 2 ^ t; m = p div d; r = p mod d;
          m' = (if d < 2 * r \<or> (2 * r = d \<and> odd m) then m + 1 else m)
      in if 2045 < t + c \<or> (t + c = 2045 \<and> m' = 2 ^ 53) then Inf s else Fin s (m' * pow2 (t + c)))"
proof -
  define B where "B = bit_length (p div q)"
  define t where "t = B - 53"
  define d where "d = q * 2 ^ t"
  define m where "m = p div d"
  define r where "r = p mod d"
  define m' where "m' = (if d < 2 * r \<or> (2 * r = d \<and> odd m) then m + 1 else m)"
  have x: "0 < p div q" using big by (metis gr0I not_less_eq_eq le_zero_eq power_eq_0_iff zero_neq_numeral)
  from bit_length_bounds[OF x] have bb: "2 ^ (B - 1) \<le> p div q" "p div q < 2 ^ B"
    by (simp_all add: B_def)
  have "(2::nat) ^ 52 < 2 ^ B" using big bb(2) by linarith
  then have "52 < B" using power_less_imp_less_exp[of 2 52 B] by simp
  then have Bt: "B = t + 53" by (simp add: t_def)
  have bl: "bit_length (p * pow2 c div q) = B + c"
    using bit_length_scaled_div[OF q x, of c] by (simp add: B_def pow2_def)
  have T: "bit_length (p * pow2 c div q) - 53 = t + c" using bl Bt by simp
  have D: "q * pow2 (t + c) = d * 2 ^ c" by (simp add: d_def pow2_def power_add)
  have M: "p * pow2 c div (d * 2 ^ c) = m" by (simp add: m_def pow2_def)
  have R: "p * pow2 c mod (d * 2 ^ c) = r * 2 ^ c" by (simp add: r_def pow2_def)
  have c1: "d * 2 ^ c < 2 * (r * 2 ^ c) \<longleftrightarrow> d < 2 * r"
    by (simp add: mult.assoc[symmetric])
  have c2: "2 * (r * 2 ^ c) = d * 2 ^ c \<longleftrightarrow> 2 * r = d"
    by (simp add: mult.assoc[symmetric])
  have md: "m = (p div q) div 2 ^ t" by (simp add: m_def d_def div_mult2_eq)
  have "2 ^ 52 * 2 ^ t \<le> p div q" using bb(1) Bt by (simp add: power_add mult.commute)
  then have mlo: "2 ^ 52 \<le> m" unfolding md by (simp add: less_eq_div_iff_mult_less_eq)
  have "p div q < 2 ^ 53 * 2 ^ t" using bb(2) Bt by (simp add: power_add mult.commute)
  then have mhi: "m < 2 ^ 53" unfolding md by (simp add: div_less_iff_less_mult)
  have m'lo: "2 ^ 52 \<le> m'" and m'hi: "m' \<le> 2 ^ 53" using mlo mhi by (auto simp: m'_def)
  have ov: "pow2 2098 \<le> m' * pow2 (t + c) \<longleftrightarrow> 2045 < t + c \<or> (t + c = 2045 \<and> m' = 2 ^ 53)"
  proof (cases "2045 < t + c")
    case True
    then have "pow2 2046 \<le> pow2 (t + c)" by (intro pow2_mono) simp
    then have "pow2 52 * pow2 2046 \<le> m' * pow2 (t + c)"
      using m'lo by (intro mult_le_mono) (simp_all add: pow2_def)
    moreover have "pow2 52 * pow2 2046 = pow2 2098" by (simp add: pow2_add[symmetric])
    ultimately show ?thesis using True by simp
  next
    case False
    show ?thesis
    proof (cases "t + c = 2045")
      case True
      have e: "pow2 2098 = 2 ^ 53 * pow2 2045"
        using pow2_add[of 53 2045] by (simp add: pow2_def[of 53])
      have "pow2 2098 \<le> m' * pow2 2045 \<longleftrightarrow> 2 ^ 53 \<le> m'"
        unfolding e using pow2_pos[of 2045] by simp
      then show ?thesis using True m'hi by auto
    next
      case F2: False
      with False have le: "t + c \<le> 2044" by simp
      then have "pow2 (t + c) \<le> pow2 2044" by (intro pow2_mono)
      then have "m' * pow2 (t + c) \<le> 2 ^ 53 * pow2 2044"
        using m'hi by (intro mult_le_mono)
      moreover have "2 ^ 53 * pow2 2044 < pow2 2098"
      proof -
        have "pow2 2098 = 2 ^ 54 * pow2 2044" using pow2_add[of 54 2044] by (simp add: pow2_def[of 54])
        then show ?thesis using pow2_pos[of 2044] by simp
      qed
      ultimately show ?thesis using False F2 by simp
    qed
  qed
  have "round_nearest_even s (p * pow2 c) q = (if pow2 2098 \<le> m' * pow2 (t + c) then Inf s else Fin s (m' * pow2 (t + c)))"
    unfolding round_nearest_even_def Let_def T D M R c1 c2 m'_def by simp
  also have "\<dots> = (if 2045 < t + c \<or> (t + c = 2045 \<and> m' = 2 ^ 53) then Inf s else Fin s (m' * pow2 (t + c)))"
    using ov by simp
  finally show ?thesis
    unfolding Let_def m'_def m_def r_def d_def t_def B_def by simp
qed

lemma encode_Fin_normal:
  assumes "2 ^ 52 \<le> M" "M < 2 ^ 53"
  shows "encode (Fin s (M * pow2 c)) = of_nat (sign_bit s + ((c + 1) * 2 ^ 52 + (M - 2 ^ 52)))"
proof -
  have lo: "2 ^ (52 + c) \<le> M * 2 ^ c" using assms(1) by (simp add: power_add)
  have hi: "M * 2 ^ c < 2 ^ Suc (52 + c)" using assms(2) by (simp add: power_add)
  have bl: "bit_length (M * pow2 c) = 53 + c"
    using bit_length_unique[OF lo hi] by (simp add: pow2_def)
  have "(2::nat) ^ 52 \<le> 2 ^ (52 + c)" by (intro power_increasing) simp_all
  then have nlt: "\<not> M * pow2 c < 2 ^ 52" using lo by (simp add: pow2_def)
  show ?thesis
    unfolding encode_def using nlt bl by (simp add: Let_def pow2_def)
qed

lemma round_nearest_even_cancel:
  assumes k: "0 < k"
  shows "round_nearest_even s (p * k) (q * k) = round_nearest_even s p q"
proof -
  have 1: "p * k div (q * k) = p div q" using k by simp
  have 2: "\<And>t. p * k div (q * k * pow2 t) = p div (q * pow2 t)"
    using k by (simp add: mult.assoc mult.left_commute[of k] mult.commute[of k])
  have 3: "\<And>t. p * k mod (q * k * pow2 t) = (p mod (q * pow2 t)) * k"
    using k by (simp add: mult.assoc mult.left_commute[of k] mult.commute[of k])
  have 4: "\<And>a b. a * k < 2 * (b * k) \<longleftrightarrow> a < 2 * b"
    using k by (simp add: mult.assoc[symmetric])
  have 5: "\<And>a b. 2 * (b * k) = a * k \<longleftrightarrow> 2 * b = a"
    using k by (simp add: mult.assoc[symmetric])
  have 6: "\<And>t. q * k * pow2 t = q * pow2 t * k" by (simp add: ac_simps)
  show ?thesis
    unfolding round_nearest_even_def Let_def 1 2 3 unfolding 6 4 5 by simp
qed

lemma fp_mul_Fin_scaled:
  assumes "1074 \<le> ca + cb"
  shows "fp_mul (Fin s (a * pow2 ca)) (Fin t (b * pow2 cb)) =
         round_nearest_even (s \<noteq> t) (a * b * pow2 (ca + cb - 1074)) 1"
proof -
  have "pow2 ca * pow2 cb = pow2 (ca + cb - 1074) * pow2 1074"
    using assms by (simp add: pow2_add[symmetric])
  then have "a * pow2 ca * (b * pow2 cb) = (a * b * pow2 (ca + cb - 1074)) * pow2 1074"
    by (simp add: ac_simps)
  then have "fp_mul (Fin s (a * pow2 ca)) (Fin t (b * pow2 cb)) =
      round_nearest_even (s \<noteq> t) ((a * b * pow2 (ca + cb - 1074)) * pow2 1074) (1 * pow2 1074)"
    by (simp only: fp_mul.simps mult_1)
  also have "\<dots> = round_nearest_even (s \<noteq> t) (a * b * pow2 (ca + cb - 1074)) 1"
    by (rule round_nearest_even_cancel) (rule pow2_pos)
  finally show ?thesis .
qed


subsection \<open>Loops, views and field sets\<close>

lemma and_then_Inr [simp]: "and_then (Inr v) f = f v"
  by (simp add: and_then_def)

lemma and_then_Inl [simp]: "and_then (Inl e) f = Inl e"
  by (simp add: and_then_def)

lemma for_loop_invariant:
  assumes "P i s"
    and "\<And>k t. i \<le> k \<Longrightarrow> k < n \<Longrightarrow> P k t \<Longrightarrow> \<exists>t'. body k t = Inr t' \<and> P (k + 1) t'"
  shows "\<exists>s'. for_loop i n body s = Inr s' \<and> P (max i n) s'"
  using assms
proof (induction i n body s rule: for_loop.induct)
  case (1 i n body s)
  show ?case
  proof (cases "i < n")
    case True
    from 1(3)[OF order_refl True 1(2)] obtain t' where t': "body i s = Inr t'" "P (i + 1) t'"
      by blast
    have "\<exists>s'. for_loop (i + 1) n body t' = Inr s' \<and> P (max (i + 1) n) s'"
    proof (rule 1(1)[OF True t'(1) t'(2)])
      fix k t assume "i + 1 \<le> k" "k < n" "P k t"
      then show "\<exists>t'. body k t = Inr t' \<and> P (k + 1) t'"
        using 1(3)[of k t] by simp
    qed
    moreover have "max (i + 1) n = max i n" using True by simp
    ultimately show ?thesis using True t'(1) by (subst for_loop.simps) simp
  next
    case False
    then have "max i n = i" by simp
    with False 1(2) show ?thesis by (subst for_loop.simps) simp
  qed
qed

text \<open>A functor that writes \<open>g i j\<close> to its own point, whatever the state, fills the
  whole grid with \<open>g\<close>.\<close>

lemma parallelFor_pointwise:
  assumes step: "\<And>i j f. 0 \<le> i \<Longrightarrow> i < n \<Longrightarrow> 0 \<le> j \<Longrightarrow> j < l \<Longrightarrow>
       functor i j (t0\<lparr>vals := f\<rparr>) = Inr (t0\<lparr>vals := f(i := (f i)(j := g i j))\<rparr>)"
  shows "parallelFor n l functor t0 =
     Inr (t0\<lparr>vals := \<lambda>a b. if 0 \<le> a \<and> a < n \<and> 0 \<le> b \<and> b < l then g a b else vals t0 a b\<rparr>)"
proof -
  define Q where "Q = (\<lambda>i t. t = t0\<lparr>vals := \<lambda>a b. if 0 \<le> a \<and> a < i \<and> 0 \<le> b \<and> b < l then g a b else vals t0 a b\<rparr>)"
  define P where "P = (\<lambda>i j t. t = t0\<lparr>vals := \<lambda>a b. if (0 \<le> a \<and> a < i \<and> 0 \<le> b \<and> b < l) \<or> (a = i \<and> 0 \<le> b \<and> b < j) then g a b else vals t0 a b\<rparr>)"
  have inner: "\<exists>t'. for_loop 0 l (\<lambda>j. functor i j) t = Inr t' \<and> Q (i + 1) t'"
    if i: "0 \<le> i" "i < n" and Qi: "Q i t" for i t
  proof -
    have "(\<lambda>a b. if (0 \<le> a \<and> a < i \<and> 0 \<le> b \<and> b < l) \<or> (a = i \<and> 0 \<le> b \<and> b < 0) then g a b else vals t0 a b)
        = (\<lambda>a b. if 0 \<le> a \<and> a < i \<and> 0 \<le> b \<and> b < l then g a b else vals t0 a b)"
      by (auto simp: fun_eq_iff)
    then have P0: "P i 0 t" using Qi by (simp add: P_def Q_def)
    have "\<exists>s'. for_loop 0 l (\<lambda>j. functor i j) t = Inr s' \<and> P i (max 0 l) s'"
    proof (rule for_loop_invariant[where P = "P i", OF P0])
      fix k t assume k: "0 \<le> k" "k < l" and Pk: "P i k t"
      have "functor i k t = Inr (t0\<lparr>vals := (\<lambda>a b. if (0 \<le> a \<and> a < i \<and> 0 \<le> b \<and> b < l) \<or> (a = i \<and> 0 \<le> b \<and> b < k) then g a b else vals t0 a b)(i := ((\<lambda>a b. if (0 \<le> a \<and> a < i \<and> 0 \<le> b \<and> b < l) \<or> (a = i \<and> 0 \<le> b \<and> b < k) then g a b else vals t0 a b) i)(k := g i k))\<rparr>)"
        using step[OF i k] Pk unfolding P_def by simp
      moreover have "(\<lambda>a b. if (0 \<le> a \<and> a < i \<and> 0 \<le> b \<and> b < l) \<or> (a = i \<and> 0 \<le> b \<and> b < k) then g a b else vals t0 a b)(i := ((\<lambda>a b. if (0 \<le> a \<and> a < i \<and> 0 \<le> b \<and> b < l) \<or> (a = i \<and> 0 \<le> b \<and> b < k) then g a b else vals t0 a b) i)(k := g i k))
          = (\<lambda>a b. if (0 \<le> a \<and> a < i \<and> 0 \<le> b \<and> b < l) \<or> (a = i \<and> 0 \<le> b \<and> b < k + 1) then g a b else vals t0 a b)"
        using k by (auto simp: fun_eq_iff)
      ultimately show "\<exists>t'. functor i k t = Inr t' \<and> P i (k + 1) t'"
        by (simp add: P_def)
    qed
    then obtain s' where s': "for_loop 0 l (\<lambda>j. functor i j) t = Inr s'" "P i (max 0 l) s'" by blast
    have "(\<lambda>a b. if (0 \<le> a \<and> a < i \<and> 0 \<le> b \<and> b < l) \<or> (a = i \<and> 0 \<le> b \<and> b < max 0 l) then g a b else vals t0 a b)
        = (\<lambda>a b. if 0 \<le> a \<and> a < i + 1 \<and> 0 \<le> b \<and> b < l then g a b else vals t0 a b)"
      using i by (auto simp: fun_eq_iff)
    then have "Q (i + 1) s'" using s'(2) by (simp add: P_def Q_def)
    with s'(1) show ?thesis by blast
  qed
  have "(\<lambda>a b. if 0 \<le> a \<and> a < (0::int) \<and> 0 \<le> b \<and> b < l then g a b else vals t0 a b) = vals t0"
    by (auto simp: fun_eq_iff)
  then have Q0: "Q 0 t0" by (simp add: Q_def)
  have "\<exists>s'. for_loop 0 n (\<lambda>i. for_loop 0 l (\<lambda>j. functor i j)) t0 = Inr s' \<and> Q (max 0 n) s'"
    by (rule for_loop_invariant[where P = Q, OF Q0]) (use inner in blast)
  moreover have "(\<lambda>a b. if 0 \<le> a \<and> a < max 0 n \<and> 0 \<le> b \<and> b < l then g a b else vals t0 a b)
      = (\<lambda>a b. if 0 \<le> a \<and> a < n \<and> 0 \<le> b \<and> b < l then g a b else vals t0 a b)"
    by (auto simp: fun_eq_iff)
  ultimately show ?thesis by (auto simp: parallelFor_def Q_def)
qed

lemma checkFieldSetContent_present:
  "list_all (\<lambda>n. map_of flds n \<noteq> None) ns \<Longrightarrow> checkFieldSetContent flds ns = Inr ()"
  by (induction ns) auto

lemma field_by_name_Some: "map_of flds n = Some f \<Longrightarrow> field_by_name flds n = Inr f"
  by (simp add: field_by_name_def)

lemma map_of_put_field:
  "map_of (put_field n f flds) m =
     (if m = n then (case map_of flds n of None \<Rightarrow> None | Some g \<Rightarrow> Some f) else map_of flds m)"
  by (induction flds) (auto simp: put_field_def)

lemma view_read_covered:
  "covers f t \<Longrightarrow> 0 \<le> i \<Longrightarrow> i < shape0 t \<Longrightarrow> 0 \<le> j \<Longrightarrow> j < levels t \<Longrightarrow>
   view_read f i j = Inr (vals f i j)"
  by (simp add: view_read_def in_view_def covers_def)

lemma view_write_own:
  "0 \<le> i \<Longrightarrow> i < shape0 t \<Longrightarrow> 0 \<le> j \<Longrightarrow> j < levels t \<Longrightarrow>
   view_write (t\<lparr>vals := f\<rparr>) i j v = Inr (t\<lparr>vals := f(i := (f i)(j := v))\<rparr>)"
  by (simp add: view_write_def in_view_def)

lemma view_read_own:
  "0 \<le> i \<Longrightarrow> i < shape0 t \<Longrightarrow> 0 \<le> j \<Longrightarrow> j < levels t \<Longrightarrow>
   view_read (t\<lparr>vals := f\<rparr>) i j = Inr (f i j)"
  by (simp add: view_read_def in_view_def)


lemma signed_mag_scale: "signed_mag s (x * k) = signed_mag s x * int k"
  by (simp add: signed_mag_def)

lemma fp_add_Fin_scaled:
  "fp_add (Fin s (a * pow2 ca)) (Fin t (b * pow2 cb)) =
     (let c = min ca cb; z = signed_mag s (a * 2 ^ (ca - c)) + signed_mag t (b * 2 ^ (cb - c))
      in if z = 0 then Fin (s \<and> t) 0 else round_nearest_even (z < 0) (nat \<bar>z\<bar> * pow2 c) 1)"
proof -
  define c where "c = min ca cb"
  define z where "z = signed_mag s (a * 2 ^ (ca - c)) + signed_mag t (b * 2 ^ (cb - c))"
  have ea: "a * pow2 ca = a * 2 ^ (ca - c) * pow2 c"
    by (simp add: c_def pow2_def power_add[symmetric])
  have eb: "b * pow2 cb = b * 2 ^ (cb - c) * pow2 c"
    by (simp add: c_def pow2_def power_add[symmetric])
  have P: "0 < int (pow2 c)" using pow2_pos[of c] by simp
  have sum: "signed_mag s (a * pow2 ca) + signed_mag t (b * pow2 cb) = z * int (pow2 c)"
    unfolding ea eb signed_mag_scale z_def by (simp add: algebra_simps)
  have z0: "z * int (pow2 c) = 0 \<longleftrightarrow> z = 0" using P by simp
  have zn: "z * int (pow2 c) < 0 \<longleftrightarrow> z < 0" using P by (simp add: mult_less_0_iff)
  have za: "nat \<bar>z * int (pow2 c)\<bar> = nat \<bar>z\<bar> * pow2 c"
    by (simp add: abs_mult nat_mult_distrib)
  show ?thesis
    unfolding fp_add.simps sum Let_def z0 zn za c_def[symmetric] z_def[symmetric] ..
qed

lemma fp_add_Fin_zero: "fp_add (Fin s k) (Fin t 0) =
    (if k = 0 then Fin (s \<and> t) 0 else round_nearest_even s k 1)"
  by (auto simp: fp_add.simps signed_mag_def Let_def)

lemma fp_div_Fin_scaled:
  assumes "b \<noteq> 0" "cb + 64 \<le> ca + 1074"
  shows "fp_div (Fin s (a * pow2 ca)) (Fin t (b * pow2 cb)) =
         round_nearest_even (s \<noteq> t) (a * 2 ^ 64 * pow2 (ca + 1074 - cb - 64)) b"
proof -
  have nz: "b * pow2 cb \<noteq> 0" using assms(1) pow2_pos[of cb] by simp
  have e: "ca + 1074 = 64 + (ca + 1074 - cb - 64) + cb" using assms(2) by simp
  have "pow2 ca * pow2 1074 = pow2 (ca + 1074)" by (simp only: pow2_add)
  also have "\<dots> = pow2 (64 + (ca + 1074 - cb - 64) + cb)" using arg_cong[OF e, of pow2] .
  also have "\<dots> = pow2 64 * pow2 (ca + 1074 - cb - 64) * pow2 cb" by (simp only: pow2_add)
  finally have "pow2 ca * pow2 1074 = 2 ^ 64 * pow2 (ca + 1074 - cb - 64) * pow2 cb"
    by (simp only: pow2_def[of 64])
  then have "a * pow2 ca * pow2 1074 = (a * 2 ^ 64 * pow2 (ca + 1074 - cb - 64)) * pow2 cb"
    by (simp add: mult.assoc)
  then have "fp_div (Fin s (a * pow2 ca)) (Fin t (b * pow2 cb)) =
      round_nearest_even (s \<noteq> t) ((a * 2 ^ 64 * pow2 (ca + 1074 - cb - 64)) * pow2 cb) (b * pow2 cb)"
    using nz by (simp only: fp_div.simps if_False)
  also have "\<dots> = round_nearest_even (s \<noteq> t) (a * 2 ^ 64 * pow2 (ca + 1074 - cb - 64)) b"
    by (rule round_nearest_even_cancel) (rule pow2_pos)
  finally show ?thesis .
qed

lemma pow2_neq_0 [simp]: "pow2 n \<noteq> 0"
  using pow2_pos[of n] by simp

declare fp_add.simps [simp del] fp_mul.simps [simp del] fp_div.simps [simp del]

lemmas fp_eval = dadd_def dmul_def ddiv_def decode_def Let_def fp_add_Fin_scaled fp_add_Fin_zero
  fp_mul_Fin_scaled fp_div_Fin_scaled round_nearest_even_scaled encode_Fin_normal sign_bit_def signed_mag_def


lemma covers_point_field [simp]: "covers (point_field v) (point_field w)"
  by (simp add: covers_def point_field_def)

lemma in_view_point_field [simp]: "in_view (point_field v) i j \<longleftrightarrow> i = 0 \<and> j = 0"
  by (auto simp: in_view_def point_field_def)

lemma vals_point_field [simp]: "vals (point_field v) i j = v"
  by (simp add: point_field_def)

subsection \<open>The total-mass kernel\<close>

text \<open>
  Claim C8. When the five fields \<open>m_v\<close>, \<open>m_ci\<close>, \<open>m_cl\<close>, \<open>m_r\<close> and \<open>m_t\<close> are present (and the
  arrays of the four inputs have at least the extents of \<open>m_t\<close>, so that no view is read
  outside its array), \<open>evalTotalMassMoistAir\<close> returns \<open>true\<close> and leaves the field set with
  \<open>m_t(i, j) = 1 + m_v(i, j) + m_ci(i, j) + m_cl(i, j) + m_r(i, j)\<close> at every grid point and
  level of \<open>m_t\<close>, the sum taken from left to right in double arithmetic, and nothing else
  changed.
\<close>

theorem evalTotalMassMoistAir_one_plus_sum:
  assumes present: "map_of flds ''m_v'' = Some m_v" "map_of flds ''m_ci'' = Some m_ci"
      "map_of flds ''m_cl'' = Some m_cl" "map_of flds ''m_r'' = Some m_r"
      "map_of flds ''m_t'' = Some m_t"
    and shapes: "covers m_v m_t" "covers m_ci m_t" "covers m_cl m_t" "covers m_r m_t"
  shows "evalTotalMassMoistAir flds =
     Inr (True, put_field ''m_t''
       (m_t\<lparr>vals := \<lambda>i j. if in_view m_t i j
           then dadd (dadd (dadd (dadd d_1 (vals m_v i j)) (vals m_ci i j)) (vals m_cl i j)) (vals m_r i j)
           else vals m_t i j\<rparr>) flds)"
proof -
  have chk: "checkFieldSetContent flds [''m_v'', ''m_ci'', ''m_cl'', ''m_r'', ''m_t''] = Inr ()"
    by (rule checkFieldSetContent_present) (simp add: present)
  have loop: "parallelFor (shape0 m_t) (levels m_t)
        (\<lambda>i j t.
           and_then (view_read m_v i j) (\<lambda>v.
           and_then (view_read m_ci i j) (\<lambda>ci.
           and_then (view_read m_cl i j) (\<lambda>cl.
           and_then (view_read m_r i j) (\<lambda>r.
           view_write t i j (dadd (dadd (dadd (dadd d_1 v) ci) cl) r))))))
        m_t =
      Inr (m_t\<lparr>vals := \<lambda>a b. if 0 \<le> a \<and> a < shape0 m_t \<and> 0 \<le> b \<and> b < levels m_t
           then dadd (dadd (dadd (dadd d_1 (vals m_v a b)) (vals m_ci a b)) (vals m_cl a b)) (vals m_r a b)
           else vals m_t a b\<rparr>)"
    by (rule parallelFor_pointwise)
       (simp add: view_read_covered[OF shapes(1)] view_read_covered[OF shapes(2)]
          view_read_covered[OF shapes(3)] view_read_covered[OF shapes(4)] view_write_own)
  show ?thesis
    unfolding evalTotalMassMoistAir_def chk
    by (simp add: field_by_name_Some present loop in_view_def)
qed

text \<open>The example: \<open>1 + 0.5 + 0 + 0 + 0 = 1.5\<close>.\<close>

theorem evalTotalMassMoistAir_one_plus_sum_witness:
  "returned (evalTotalMassMoistAir total_mass_example) = Some True \<and>
   result_cell (evalTotalMassMoistAir total_mass_example) ''m_t'' 0 0 = Some 0x3FF8000000000000"
proof -
  have e: "evalTotalMassMoistAir total_mass_example =
     Inr (True, put_field ''m_t''
       (point_field d_0\<lparr>vals := \<lambda>i j. if in_view (point_field d_0) i j
           then dadd (dadd (dadd (dadd d_1 (vals (point_field 0x3FE0000000000000) i j))
                  (vals (point_field d_0) i j)) (vals (point_field d_0) i j)) (vals (point_field d_0) i j)
           else vals (point_field d_0) i j\<rparr>) total_mass_example)"
    by (rule evalTotalMassMoistAir_one_plus_sum) (simp_all add: total_mass_example_def)
  have v: "dadd (dadd (dadd (dadd d_1 0x3FE0000000000000) d_0) d_0) d_0 = 0x3FF8000000000000"
    by (simp add: d_1_def d_0_def fp_eval)
  show ?thesis
    unfolding e by (simp add: returned_def result_cell_def map_of_put_field total_mass_example_def v)
qed

subsection \<open>The air-temperature kernel\<close>

lemma dlit_scaled: "dlit p q = encode (round_nearest_even False (p * 2 ^ 64 * pow2 1010) q)"
proof -
  have "pow2 1074 = 2 ^ 64 * pow2 1010" using pow2_add[of 64 1010] by (simp add: pow2_def[of 64])
  then show ?thesis by (simp add: dlit_def mult.assoc)
qed

lemmas dlit_eval = dlit_scaled round_nearest_even_scaled encode_Fin_normal sign_bit_def Let_def

lemma dlit_300: "dlit 300 1 = 0x4072C00000000000"
  by (simp add: dlit_eval)

lemma dlit_095: "dlit 95 100 = 0x3FEE666666666666"
  by (simp add: dlit_eval)

lemma dlit_285: "dlit 285 1 = 0x4071D00000000000"
  by (simp add: dlit_eval)

lemma dmul_300_095: "dmul (dlit 300 1) (dlit 95 100) = dlit 285 1"
  unfolding dlit_300 dlit_095 dlit_285 by (simp add: fp_eval)

text \<open>
  Claim C6. With the fields \<open>theta\<close>, \<open>exner\<close> and \<open>air_temperature\<close> present (the arrays of the
  two ingredients having at least the extents of the product), the NL kernel of the unit
  \<open>AirTemperature_A\<close> returns \<open>true\<close> and sets
  \<open>air_temperature(i, j) = theta(i, j) * exner(i, j)\<close> at every grid point and level; and
  the double product of the literals \<open>300.0\<close> and \<open>0.95\<close> is the double \<open>285.0\<close>.
\<close>

theorem evalAirTemperature_theta_times_exner:
  assumes present: "map_of flds ''theta'' = Some theta" "map_of flds ''exner'' = Some exner"
      "map_of flds ''air_temperature'' = Some atemp"
    and shapes: "covers theta atemp" "covers exner atemp"
  shows "evalAirTemperature flds =
     Inr (True, put_field ''air_temperature''
       (atemp\<lparr>vals := \<lambda>i j. if in_view atemp i j then dmul (vals theta i j) (vals exner i j)
                            else vals atemp i j\<rparr>) flds)
     \<and> dmul (dlit 300 1) (dlit 95 100) = dlit 285 1"
proof -
  have chk: "checkFieldSetContent flds [''theta'', ''exner'', ''air_temperature''] = Inr ()"
    by (rule checkFieldSetContent_present) (simp add: present)
  have loop: "parallelFor (shape0 atemp) (levels atemp)
        (\<lambda>i j t.
           and_then (view_read theta i j) (\<lambda>th.
           and_then (view_read exner i j) (\<lambda>ex.
           view_write t i j (dmul th ex))))
        atemp =
      Inr (atemp\<lparr>vals := \<lambda>a b. if 0 \<le> a \<and> a < shape0 atemp \<and> 0 \<le> b \<and> b < levels atemp
           then dmul (vals theta a b) (vals exner a b) else vals atemp a b\<rparr>)"
    by (rule parallelFor_pointwise)
       (simp add: view_read_covered[OF shapes(1)] view_read_covered[OF shapes(2)] view_write_own)
  show ?thesis
    unfolding evalAirTemperature_def chk using dmul_300_095
    by (simp add: field_by_name_Some present loop in_view_def)
qed

text \<open>Scenario 1: the kernel leaves \<open>air_temperature = [285.0]\<close>.\<close>

theorem evalAirTemperature_scenario_1:
  "returned (evalAirTemperature scenario_1) = Some True \<and>
   result_cell (evalAirTemperature scenario_1) ''air_temperature'' 0 0 = Some (dlit 285 1)"
proof -
  have e: "evalAirTemperature scenario_1 =
     Inr (True, put_field ''air_temperature''
       (point_field d_0\<lparr>vals := \<lambda>i j. if in_view (point_field d_0) i j
           then dmul (vals (point_field (dlit 300 1)) i j) (vals (point_field (dlit 95 100)) i j)
           else vals (point_field d_0) i j\<rparr>) scenario_1)"
    using evalAirTemperature_theta_times_exner[of scenario_1 "point_field (dlit 300 1)"
        "point_field (dlit 95 100)" "point_field d_0"]
    by (simp add: scenario_1_def)
  show ?thesis
    unfolding e using dmul_300_095
    by (simp add: returned_def result_cell_def map_of_put_field scenario_1_def)
qed

subsection \<open>The relative-humidity kernel\<close>

lemma decode_d_0: "decode d_0 = Fin False 0"
  by (simp add: d_0_def decode_def)

lemma decode_d_100: "decode d_100 = Fin False (7036874417766400 * pow2 1028)"
  by (simp add: d_100_def decode_def Let_def)

lemma not_isnan_d_0 [simp]: "\<not> isnan d_0"
  by (simp add: isnan_def decode_d_0)

lemma not_isnan_d_100 [simp]: "\<not> isnan d_100"
  by (simp add: isnan_def decode_d_100)

lemma key_d_0 [simp]: "fp_key (decode d_0) = 0"
  by (simp add: decode_d_0 signed_mag_def)

lemma key_d_100_pos: "0 < fp_key (decode d_100)"
  using pow2_pos[of 1028] by (simp add: decode_d_100 signed_mag_def)

lemma not_dless_d_100_d_0 [simp]: "\<not> dless d_100 d_0"
  using key_d_100_pos by (simp add: dless_def)

lemma dless_d_100_not_below_zero: "dless d_100 x \<Longrightarrow> \<not> dless x d_0"
  using key_d_100_pos by (simp add: dless_def)

lemma relative_humidity_value:
  "(if cap \<and> dless d_100 (fmax raw d_0) then d_100 else fmax raw d_0) =
   (if isnan raw \<or> dless raw d_0 then d_0
    else if cap \<and> dless d_100 raw then d_100 else raw)"
  using key_d_100_pos by (auto simp: fmax_def dle_def dless_def)

text \<open>
  Claim C1. With the three fields present (the arrays of \<open>specific_humidity\<close> and \<open>qsat\<close>
  having at least the extents of \<open>relative_humidity\<close>), \<open>evalRelativeHumidity\<close> returns
  \<open>true\<close> and writes, at every grid point, the raw ratio
  \<open>specific_humidity / qsat * 100.0\<close> floored at \<open>0.0\<close> (a raw value that is negative, or
  not a number, gives \<open>0.0\<close>) and, when the metadata flag \<open>cap_super_sat\<close> of the product
  field is true, capped at \<open>100.0\<close>; when the flag is absent or false a raw value above
  \<open>100.0\<close> is written as it is.
\<close>

theorem evalRelativeHumidity_capped_and_floored:
  assumes present: "map_of flds ''specific_humidity'' = Some q" "map_of flds ''qsat'' = Some qsat"
      "map_of flds ''relative_humidity'' = Some rh"
    and shapes: "covers q rh" "covers qsat rh"
  shows "evalRelativeHumidity flds =
     Inr (True, put_field ''relative_humidity''
       (rh\<lparr>vals := \<lambda>i j. if in_view rh i j
           then (let raw = dmul (ddiv (vals q i j) (vals qsat i j)) d_100
                 in if isnan raw \<or> dless raw d_0 then d_0
                    else if cap_super_sat_of rh \<and> dless d_100 raw then d_100 else raw)
           else vals rh i j\<rparr>) flds)"
proof -
  have chk: "checkFieldSetContent flds [''specific_humidity'', ''qsat'', ''relative_humidity''] = Inr ()"
    by (rule checkFieldSetContent_present) (simp add: present)
  have cap: "(if metadata_has rh ''cap_super_sat''
              then metadata_get_bool rh ''cap_super_sat'' False else False) = cap_super_sat_of rh"
    by (simp add: metadata_has_def metadata_get_bool_def cap_super_sat_of_def split: option.splits)
  have cap': "(metadata_has rh ''cap_super_sat'' \<and> metadata_get_bool rh ''cap_super_sat'' False)
      = cap_super_sat_of rh"
    by (simp add: metadata_has_def metadata_get_bool_def cap_super_sat_of_def split: option.splits)
  have loop: "parallelFor (shape0 rh) (levels rh)
        (\<lambda>i j t.
           and_then (view_read q i j) (\<lambda>qv.
           and_then (view_read qsat i j) (\<lambda>qs.
           and_then (view_write t i j (fmax (dmul (ddiv qv qs) d_100) d_0)) (\<lambda>t1.
           and_then (view_read t1 i j) (\<lambda>r.
           view_write t1 i j (if cap_super_sat_of rh \<and> dless d_100 r then d_100 else r))))))
        rh =
      Inr (rh\<lparr>vals := \<lambda>a b. if 0 \<le> a \<and> a < shape0 rh \<and> 0 \<le> b \<and> b < levels rh
           then (if cap_super_sat_of rh \<and> dless d_100 (fmax (dmul (ddiv (vals q a b) (vals qsat a b)) d_100) d_0)
                 then d_100 else fmax (dmul (ddiv (vals q a b) (vals qsat a b)) d_100) d_0)
           else vals rh a b\<rparr>)"
    by (rule parallelFor_pointwise)
       (simp add: view_read_covered[OF shapes(1)] view_read_covered[OF shapes(2)]
          view_write_own view_read_own)
  show ?thesis
    unfolding evalRelativeHumidity_def chk
    by (simp only: and_then_Inr field_by_name_Some[OF present(1)] field_by_name_Some[OF present(2)]
          field_by_name_Some[OF present(3)] Let_def cap loop relative_humidity_value in_view_def)
qed


lemma pow2_scaled_less:
  "a * pow2 ca < b * pow2 cb \<longleftrightarrow> a * 2 ^ (ca - min ca cb) < b * 2 ^ (cb - min ca cb)"
proof -
  define c where "c = min ca cb"
  have ea: "a * pow2 ca = a * 2 ^ (ca - c) * pow2 c"
    by (simp add: c_def pow2_def power_add[symmetric])
  have eb: "b * pow2 cb = b * 2 ^ (cb - c) * pow2 c"
    by (simp add: c_def pow2_def power_add[symmetric])
  show ?thesis unfolding ea eb c_def[symmetric] using pow2_pos[of c] by simp
qed

lemma d_3_bits: "d_3 = 0x4008000000000000"
  by (simp add: d_3_def dlit_eval)

lemma d_300_bits: "d_300 = 0x4072C00000000000"
  unfolding d_300_def by (rule dlit_300)

lemma raw_300: "dmul (ddiv d_3 d_1) d_100 = d_300"
  unfolding d_3_bits d_300_bits by (simp add: d_1_def d_100_def fp_eval)

lemma raw_minus_300: "dmul (ddiv (dneg d_3) d_1) d_100 = dneg d_300"
  unfolding d_3_bits d_300_bits by (simp add: d_1_def d_100_def dneg_def fp_eval)

lemma decode_d_300: "decode d_300 = Fin False (5277655813324800 * pow2 1030)"
  unfolding d_300_bits by (simp add: decode_def Let_def)

lemma decode_minus_300: "decode (dneg d_300) = Fin True (5277655813324800 * pow2 1030)"
  unfolding d_300_bits by (simp add: dneg_def decode_def Let_def)

lemma dlit_300_above_100: "\<not> isnan d_300" "\<not> dless d_300 d_0" "dless d_100 d_300"
proof -
  show n: "\<not> isnan d_300" by (simp add: isnan_def decode_d_300)
  show "\<not> dless d_300 d_0"
    by (simp add: dless_def decode_d_300 signed_mag_def)
  have "7036874417766400 * pow2 1028 < 5277655813324800 * pow2 1030"
    by (subst pow2_scaled_less) simp
  then have "fp_key (decode d_100) < fp_key (decode d_300)"
    by (simp only: decode_d_100 decode_d_300 fp_key.simps signed_mag_def if_False of_nat_less_iff)
  then show "dless d_100 d_300" using n by (simp add: dless_def)
qed

lemma minus_300_below_0: "dless (dneg d_300) d_0"
  using pow2_pos[of 1030] by (simp add: dless_def isnan_def decode_minus_300 decode_d_0 signed_mag_def)

text \<open>With \<open>q = 3.0\<close> and \<open>qsat = 1.0\<close> the raw ratio is \<open>300.0\<close>: capped to \<open>100.0\<close> when
  the flag is true, \<open>300.0\<close> when it is false or absent; with \<open>q = -3.0\<close> the result is \<open>0.0\<close>.\<close>

theorem evalRelativeHumidity_capped_and_floored_witness:
  "result_cell (evalRelativeHumidity (humidity_example d_3 [''cap_super_sat'' \<mapsto> MBool True]))
      ''relative_humidity'' 0 0 = Some d_100 \<and>
   result_cell (evalRelativeHumidity (humidity_example d_3 [''cap_super_sat'' \<mapsto> MBool False]))
      ''relative_humidity'' 0 0 = Some d_300 \<and>
   result_cell (evalRelativeHumidity (humidity_example d_3 Map.empty))
      ''relative_humidity'' 0 0 = Some d_300 \<and>
   result_cell (evalRelativeHumidity (humidity_example (dneg d_3) Map.empty))
      ''relative_humidity'' 0 0 = Some d_0 \<and>
   returned (evalRelativeHumidity (humidity_example d_3 [''cap_super_sat'' \<mapsto> MBool True]))
      = Some True"
proof -
  have e: "evalRelativeHumidity (humidity_example q meta) =
     Inr (True, put_field ''relative_humidity''
       ((point_field d_0)\<lparr>metadata := meta,
          vals := \<lambda>i j. if in_view ((point_field d_0)\<lparr>metadata := meta\<rparr>) i j
           then (let raw = dmul (ddiv (vals (point_field q) i j) (vals (point_field d_1) i j)) d_100
                 in if isnan raw \<or> dless raw d_0 then d_0
                    else if cap_super_sat_of ((point_field d_0)\<lparr>metadata := meta\<rparr>)
                            \<and> dless d_100 raw then d_100 else raw)
           else vals ((point_field d_0)\<lparr>metadata := meta\<rparr>) i j\<rparr>) (humidity_example q meta))" for q meta
    using evalRelativeHumidity_capped_and_floored[of "humidity_example q meta" "point_field q"
        "point_field d_1" "(point_field d_0)\<lparr>metadata := meta\<rparr>"]
    by (simp add: humidity_example_def covers_def point_field_def)
  show ?thesis
    unfolding e
    by (simp add: returned_def result_cell_def map_of_put_field humidity_example_def Let_def
          in_view_def cap_super_sat_of_def point_field_def
          raw_300 raw_minus_300 dlit_300_above_100 minus_300_below_0 as_bool_def)
qed

subsection \<open>The total-relative-humidity kernel\<close>

text \<open>
  Claim C9. With its six fields present (the input arrays having at least the extents of
  \<open>rht\<close>), \<open>evalTotalRelativeHumidity\<close> returns \<open>true\<close> and writes, at every grid point,
  \<open>(q + qcl + qci + qrain) / qsat * 100.0\<close>, replaced by \<open>0.0\<close> when it is below \<open>0.0\<close>. No
  metadata is read, so no flag caps the result: a value above \<open>100.0\<close> is never below
  \<open>0.0\<close> and is written as it is. (A raw value that is not a number is not below \<open>0.0\<close>
  either and stays.)
\<close>

theorem evalTotalRelativeHumidity_never_capped:
  assumes present: "map_of flds ''specific_humidity'' = Some q"
      "map_of flds ''mass_content_of_cloud_liquid_water_in_atmosphere_layer'' = Some qcl"
      "map_of flds ''mass_content_of_cloud_ice_in_atmosphere_layer'' = Some qci"
      "map_of flds ''qrain'' = Some qrain" "map_of flds ''qsat'' = Some qsat"
      "map_of flds ''rht'' = Some rht"
    and shapes: "covers q rht" "covers qcl rht" "covers qci rht" "covers qrain rht" "covers qsat rht"
  shows "evalTotalRelativeHumidity flds =
     Inr (True, put_field ''rht''
       (rht\<lparr>vals := \<lambda>i j. if in_view rht i j
           then (let raw = dmul (ddiv (dadd (dadd (dadd (vals q i j) (vals qcl i j)) (vals qci i j))
                                       (vals qrain i j)) (vals qsat i j)) d_100
                 in if dless raw d_0 then d_0 else raw)
           else vals rht i j\<rparr>) flds)
     \<and> (\<forall>raw. dless d_100 raw \<longrightarrow> (if dless raw d_0 then d_0 else raw) = raw)"
proof -
  have chk: "checkFieldSetContent flds
        [''specific_humidity'', ''mass_content_of_cloud_liquid_water_in_atmosphere_layer'',
         ''mass_content_of_cloud_ice_in_atmosphere_layer'', ''qrain'', ''qsat'', ''rht''] = Inr ()"
    by (rule checkFieldSetContent_present) (simp add: present)
  have loop: "parallelFor (shape0 rht) (levels rht)
        (\<lambda>i j t.
           and_then (view_read q i j) (\<lambda>qv.
           and_then (view_read qcl i j) (\<lambda>qclv.
           and_then (view_read qci i j) (\<lambda>qciv.
           and_then (view_read qrain i j) (\<lambda>qrainv.
           and_then (view_read qsat i j) (\<lambda>qsatv.
           and_then (view_write t i j
              (dmul (ddiv (dadd (dadd (dadd qv qclv) qciv) qrainv) qsatv) d_100)) (\<lambda>t1.
           and_then (view_read t1 i j) (\<lambda>r.
           if dless r d_0 then view_write t1 i j d_0 else Inr t1))))))))
        rht =
      Inr (rht\<lparr>vals := \<lambda>a b. if 0 \<le> a \<and> a < shape0 rht \<and> 0 \<le> b \<and> b < levels rht
           then (if dless (dmul (ddiv (dadd (dadd (dadd (vals q a b) (vals qcl a b)) (vals qci a b))
                                       (vals qrain a b)) (vals qsat a b)) d_100) d_0 then d_0
                 else dmul (ddiv (dadd (dadd (dadd (vals q a b) (vals qcl a b)) (vals qci a b))
                                       (vals qrain a b)) (vals qsat a b)) d_100)
           else vals rht a b\<rparr>)"
    by (rule parallelFor_pointwise)
       (simp add: view_read_covered[OF shapes(1)] view_read_covered[OF shapes(2)]
          view_read_covered[OF shapes(3)] view_read_covered[OF shapes(4)]
          view_read_covered[OF shapes(5)] view_write_own view_read_own)
  have eq: "evalTotalRelativeHumidity flds =
     Inr (True, put_field ''rht''
       (rht\<lparr>vals := \<lambda>i j. if in_view rht i j
           then (let raw = dmul (ddiv (dadd (dadd (dadd (vals q i j) (vals qcl i j)) (vals qci i j))
                                       (vals qrain i j)) (vals qsat i j)) d_100
                 in if dless raw d_0 then d_0 else raw)
           else vals rht i j\<rparr>) flds)"
    unfolding evalTotalRelativeHumidity_def chk
    by (simp only: and_then_Inr field_by_name_Some[OF present(1)] field_by_name_Some[OF present(2)]
          field_by_name_Some[OF present(3)] field_by_name_Some[OF present(4)]
          field_by_name_Some[OF present(5)] field_by_name_Some[OF present(6)] Let_def loop in_view_def)
  show ?thesis using eq dless_d_100_not_below_zero by simp
qed

text \<open>With \<open>q = 3.0\<close> and \<open>qsat = 1.0\<close> the result is \<open>300.0\<close>, above \<open>100.0\<close>, also when the
  \<open>rht\<close> field carries \<open>cap_super_sat = true\<close>.\<close>

theorem evalTotalRelativeHumidity_never_capped_witness:
  "result_cell (evalTotalRelativeHumidity (total_humidity_example [''cap_super_sat'' \<mapsto> MBool True]))
      ''rht'' 0 0 = Some d_300 \<and>
   result_cell (evalTotalRelativeHumidity (total_humidity_example Map.empty)) ''rht'' 0 0 = Some d_300 \<and>
   returned (evalTotalRelativeHumidity (total_humidity_example [''cap_super_sat'' \<mapsto> MBool True]))
      = Some True \<and>
   dless d_100 d_300"
proof -
  have e: "evalTotalRelativeHumidity (total_humidity_example meta) =
     Inr (True, put_field ''rht''
       ((point_field d_0)\<lparr>metadata := meta,
          vals := \<lambda>i j. if in_view ((point_field d_0)\<lparr>metadata := meta\<rparr>) i j
           then (let raw = dmul (ddiv (dadd (dadd (dadd (vals (point_field d_3) i j)
                      (vals (point_field d_0) i j)) (vals (point_field d_0) i j))
                      (vals (point_field d_0) i j)) (vals (point_field d_1) i j)) d_100
                 in if dless raw d_0 then d_0 else raw)
           else vals ((point_field d_0)\<lparr>metadata := meta\<rparr>) i j\<rparr>) (total_humidity_example meta))" for meta
    using evalTotalRelativeHumidity_never_capped[of "total_humidity_example meta" "point_field d_3"
        "point_field d_0" "point_field d_0" "point_field d_0" "point_field d_1"
        "(point_field d_0)\<lparr>metadata := meta\<rparr>"]
    by (simp add: total_humidity_example_def covers_def point_field_def)
  have s: "dadd (dadd (dadd d_3 d_0) d_0) d_0 = d_3"
    unfolding d_3_bits by (simp add: d_0_def fp_eval)
  show ?thesis
    unfolding e
    by (simp add: returned_def result_cell_def map_of_put_field total_humidity_example_def Let_def
          in_view_def point_field_def s raw_300 dlit_300_above_100)
qed

subsection \<open>The defaults of the recipe base class\<close>

text \<open>
  Claim C10. For a recipe that does not override them, \<open>requiresSetup()\<close> returns \<open>false\<close>
  and \<open>setup(fieldSet)\<close> returns \<open>true\<close> and leaves the field set as it is: the flag that
  asks for the setup step is never raised and the setup cannot fail.
\<close>

theorem RecipeBase_defaults:
  assumes "requiresSetup_override r = None" and "setup_override r = None"
  shows "requiresSetup r = False \<and> setup_recipe r flds = (True, flds)"
  using assms by (simp add: requiresSetup_def setup_recipe_def)

theorem RecipeBase_defaults_witness:
  "requiresSetup plain_recipe = False \<and> setup_recipe plain_recipe scenario_1 = (True, scenario_1)"
  using RecipeBase_defaults[of plain_recipe scenario_1] by (simp add: plain_recipe_def)

subsection \<open>Required parameters\<close>

text \<open>
  Claim C3 says that no recipe's parameter set has a required parameter, as the comment
  in \<^verbatim>\<open>VaderParameters.h\<close> does (``it should not have any RequiredParameters, and neither
  should the individual Recipes''). \<open>VaderParameters\<close> has none, but
  \<open>AirPressureToKappa_AParameters\<close> declares the required parameter \<open>recipe name\<close>: read
  from an empty configuration it fails, whatever the base class declares.
\<close>

theorem AirPressureToKappa_A_requires_recipe_name:
  "\<not> has_required_parameter VaderParameters \<and>
   has_required_parameter (AirPressureToKappa_AParameters base) \<and>
   (\<exists>k. validateAndDeserialize (AirPressureToKappa_AParameters base) [] = Inl (MissingRequiredParameter k))"
proof -
  have 1: "has_required_parameter (AirPressureToKappa_AParameters base)"
    by (simp add: has_required_parameter_def AirPressureToKappa_AParameters_def)
  have 2: "\<exists>k. validateAndDeserialize (ps @ [(''recipe name'', RequiredParameter), (''kappa'', Parameter)]) []
      = Inl (MissingRequiredParameter k)" for ps
    by (induction ps "[] :: string list" rule: validateAndDeserialize.induct) simp_all
  have 3: "\<not> has_required_parameter VaderParameters"
    by (simp add: has_required_parameter_def VaderParameters_def)
  show ?thesis using 1 2 3 by (simp add: AirPressureToKappa_AParameters_def)
qed

subsection \<open>Missing metadata\<close>

lemma and_then_eq_Inr:
  "and_then m f = Inr x \<longleftrightarrow> (\<exists>v. m = Inr v \<and> f v = Inr x)"
  by (cases m) simp_all

lemma evalParamAParamB_never_false:
  "evalParamAParamB C M b flds \<noteq> Inr (False, flds')"
  by (auto simp: evalParamAParamB_def Let_def and_then_eq_Inr split: prod.splits)


text \<open>
  Claim C4 says that \<open>evalParamAParamB\<close> returns \<open>false\<close> when the \<open>height\<close> field has no
  \<open>boundary_layer_index\<close>. The kernel reports the absence in the log and goes on with
  whatever \<open>blindex\<close> held: on the input below, with \<open>0\<close> there, it returns \<open>true\<close>, and on
  no input does it return \<open>false\<close>.
\<close>

theorem evalParamAParamB_missing_index_returns_true:
  "\<not> metadata_has (two_level_field d_1) ''boundary_layer_index'' \<and>
   returned (evalParamAParamB C M 0 missing_index_input) = Some True \<and>
   evalParamAParamB C M b flds \<noteq> Inr (False, flds')"
proof -
  have 1: "\<not> metadata_has (two_level_field d_1) ''boundary_layer_index''"
    by (simp add: metadata_has_def two_level_field_def)
  have 2: "returned (evalParamAParamB C M 0 missing_index_input) = Some True"
    by (simp add: evalParamAParamB_def missing_index_input_def field_by_name_def
          metadata_get_size_def two_level_field_def point_field_def Let_def
          for_loop.simps view_read_def view_write_def in_view_def returned_def)
  show ?thesis using 1 2 evalParamAParamB_never_false by simp
qed

subsection \<open>Missing fields\<close>








subsection \<open>The executor rejects units that provide only NL\<close>

lemma find_nl_only:
  "u \<in> set p \<Longrightarrow> nl_only u \<Longrightarrow> \<exists>u'. find nl_only p = Some u' \<and> u' \<in> set p \<and> nl_only u'"
  by (induction p) auto

text \<open>
  Claim C7. When a plan that holds a unit providing only NL is run in the mode TL or AD,
  the executor fails with the error \<open>NLOnlyUnitInPlan\<close> naming such a unit of the plan, and
  runs nothing: the state is the one it was given. The unit is not skipped.
\<close>

theorem executePlan_rejects_nl_only_unit:
  assumes "m = TL \<or> m = AD" and "u \<in> set p" and "nl_only u"
  shows "\<exists>u'. u' \<in> set p \<and> nl_only u' \<and>
          executePlan m p st = (Some (NLOnlyUnitInPlan (uname u')), st)"
proof -
  from find_nl_only[OF assms(2,3)] obtain u' where
    u': "find nl_only p = Some u'" "u' \<in> set p" "nl_only u'" by blast
  have "m \<noteq> NL" using assms(1) by auto
  then have "executePlan m p st = (Some (NLOnlyUnitInPlan (uname u')), st)"
    by (simp add: executePlan_def u'(1))
  with u'(2,3) show ?thesis by blast
qed

text \<open>The plan of the NL-only unit alone is rejected in TL and in AD, and runs in NL.\<close>

theorem executePlan_rejects_nl_only_unit_witness:
  "nl_only kappa_unit \<and>
   executePlan TL [kappa_unit] initial_state = (Some (NLOnlyUnitInPlan ''AirPressureToKappa_A''), initial_state) \<and>
   executePlan AD [kappa_unit] initial_state = (Some (NLOnlyUnitInPlan ''AirPressureToKappa_A''), initial_state) \<and>
   executePlan NL [kappa_unit] initial_state = (None, initial_state)"
proof -
  have n: "nl_only kappa_unit" by (simp add: nl_only_def kappa_unit_def simple_unit_def)
  have "\<exists>u'. u' \<in> set [kappa_unit] \<and> nl_only u' \<and>
          executePlan m [kappa_unit] initial_state = (Some (NLOnlyUnitInPlan (uname u')), initial_state)"
    if "m = TL \<or> m = AD" for m
    using executePlan_rejects_nl_only_unit[OF that, of kappa_unit "[kappa_unit]" initial_state] n
    by simp
  then have r: "executePlan m [kappa_unit] initial_state
      = (Some (NLOnlyUnitInPlan ''AirPressureToKappa_A''), initial_state)" if "m = TL \<or> m = AD" for m
    using that by (auto simp: kappa_unit_def simple_unit_def)
  have nlrun: "executePlan NL [kappa_unit] initial_state = (None, initial_state)"
    by (simp add: executePlan_def kappa_unit_def simple_unit_def execute_unit_def initial_state_def)
  show ?thesis using n r[of TL] r[of AD] nlrun by simp
qed

subsection \<open>The resolver\<close>

lemma ingredients_before_product_snoc:
  "ingredients_before_product avail (p @ [u]) =
     (ingredients_before_product avail p \<and>
      set (uingredients u) \<subseteq> set avail \<union> set (map uproduct p))"
  by (induction p arbitrary: avail) auto

lemma resolve_invariant:
  shows "resolution_ok A st \<Longrightarrow>
         set (resolved st) \<inter> set stack = {} \<Longrightarrow>
         resolveVariable reg C A stack st v = Inr st' \<Longrightarrow>
         resolution_ok A st' \<and> set (resolved st') \<inter> set stack = {} \<and>
         set (resolved st) \<subseteq> set (resolved st') \<and> v \<in> set A \<union> set (resolved st')"
    and "resolution_ok A st \<Longrightarrow>
         set (resolved st) \<inter> set stack = {} \<Longrightarrow> v \<in> set stack \<Longrightarrow> v \<notin> set A \<Longrightarrow>
         tryCandidates reg C A stack st v ns tried = Inr st' \<Longrightarrow>
         resolution_ok A st' \<and> set (resolved st') \<inter> (set stack - {v}) = {} \<and>
         set (resolved st) \<subseteq> set (resolved st') \<and> v \<in> set (resolved st')"
    and "resolution_ok A st \<Longrightarrow>
         set (resolved st) \<inter> set stack = {} \<Longrightarrow>
         resolveIngredients reg C A stack st is = Inr st' \<Longrightarrow>
         resolution_ok A st' \<and> set (resolved st') \<inter> set stack = {} \<and>
         set (resolved st) \<subseteq> set (resolved st') \<and> set is \<subseteq> set A \<union> set (resolved st')"
proof (induction reg C A stack st v and reg C A stack st v ns tried and reg C A stack st "is"
       arbitrary: st' and st' and st'
       rule: resolveVariable_tryCandidates_resolveIngredients.induct)
  case (1 reg C A stack st v)
  show ?case
  proof (cases "v \<in> set A \<or> v \<in> set (resolved st)")
    case True
    with 1 show ?thesis by auto
  next
    case False
    with 1(4) have nstack: "v \<notin> set stack" by (auto split: if_splits)
    from False nstack 1(4) obtain cands where
      c: "map_of C v = Some cands"
      and r: "tryCandidates reg C A (v # stack) st v cands [] = Inr st'"
      by (auto split: option.splits)
    have disj: "set (resolved st) \<inter> set (v # stack) = {}" using 1(3) False by auto
    from 1(1)[OF False nstack c 1(2) disj _ _ r] False
    have "resolution_ok A st' \<and> set (resolved st') \<inter> (set (v # stack) - {v}) = {} \<and>
         set (resolved st) \<subseteq> set (resolved st') \<and> v \<in> set (resolved st')"
      by auto
    then show ?thesis using nstack by auto
  qed
next
  case (2 reg C A stack st v tried)
  then show ?case by simp
next
  case (3 reg C A stack st v n ns tried)
  from 3(8) obtain u where Some: "map_of reg n = Some u" by (auto split: option.splits)
  show ?case
  proof (cases "uproduct u \<noteq> v")
    case True
    with Some 3(8)
    have r: "tryCandidates reg C A stack st v ns ((n, ProducesOther (uproduct u)) # tried) = Inr st'"
      by simp
    from 3(1)[OF Some True 3(4) 3(5) 3(6) 3(7) r] show ?thesis .
  next
    case False
    then have pu: "uproduct u = v" by simp
    show ?thesis
    proof (cases "resolveIngredients reg C A stack st (uingredients u)")
      case (Inl e)
      with Some pu 3(8) have nc: "next_candidate e"
        and r: "tryCandidates reg C A stack st v ns ((n, IngredientFailure e) # tried) = Inr st'"
        by (auto split: if_splits)
      from 3(3)[OF Some False Inl nc 3(4) 3(5) 3(6) 3(7) r] show ?thesis .
    next
      case (Inr st1)
      with Some pu 3(8) have st': "st' = \<lparr>resolved = resolved st1 @ [v], plan = plan st1 @ [u]\<rparr>"
        by simp
      from 3(2)[OF Some False 3(4) 3(5) Inr]
      have ok1: "resolution_ok A st1" and d1: "set (resolved st1) \<inter> set stack = {}"
        and m1: "set (resolved st) \<subseteq> set (resolved st1)"
        and i1: "set (uingredients u) \<subseteq> set A \<union> set (resolved st1)"
        by auto
      have vn: "v \<notin> set (resolved st1)" using d1 3(6) by auto
      have "resolution_ok A st'"
        using ok1 vn 3(7) i1 pu
        by (auto simp: resolution_ok_def st' ingredients_before_product_snoc)
      moreover have "set (resolved st') \<inter> (set stack - {v}) = {}" using d1 by (auto simp: st')
      moreover have "set (resolved st) \<subseteq> set (resolved st')" using m1 by (auto simp: st')
      moreover have "v \<in> set (resolved st')" by (simp add: st')
      ultimately show ?thesis by blast
    qed
  qed
next
  case (4 reg C A stack st)
  then show ?case by simp
next
  case (5 reg C A stack st i "is")
  from 5(5) obtain st1 where
    r1: "resolveVariable reg C A stack st i = Inr st1"
    and r2: "resolveIngredients reg C A stack st1 is = Inr st'"
    by (auto split: sum.splits)
  from 5(1)[OF 5(3) 5(4) r1]
  have ok1: "resolution_ok A st1" and d1: "set (resolved st1) \<inter> set stack = {}"
    and m1: "set (resolved st) \<subseteq> set (resolved st1)"
    and i1: "i \<in> set A \<union> set (resolved st1)"
    by auto
  from 5(2)[OF r1 ok1 d1 r2]
  have "resolution_ok A st'" "set (resolved st') \<inter> set stack = {}"
    "set (resolved st1) \<subseteq> set (resolved st')" "set is \<subseteq> set A \<union> set (resolved st')"
    by auto
  with m1 i1 show ?case by auto
qed

lemma resolve_errors:
  shows "resolveVariable reg C A stack st v = Inl e \<Longrightarrow> documented_error reg A C e"
    and "map_of C v = Some (map fst (rev tried) @ ns) \<Longrightarrow> v \<notin> set A \<Longrightarrow>
         tryCandidates reg C A stack st v ns tried = Inl e \<Longrightarrow> documented_error reg A C e"
    and "resolveIngredients reg C A stack st is = Inl e \<Longrightarrow> documented_error reg A C e"
proof (induction reg C A stack st v and reg C A stack st v ns tried and reg C A stack st "is"
       arbitrary: e and e and e
       rule: resolveVariable_tryCandidates_resolveIngredients.induct)
  case (1 reg C A stack st v)
  show ?case
  proof (cases "v \<in> set A \<or> v \<in> set (resolved st)")
    case True
    with 1(2) show ?thesis by simp
  next
    case False
    show ?thesis
    proof (cases "v \<in> set stack")
      case True
      with False 1(2) show ?thesis by auto
    next
      case nstack: False
      show ?thesis
      proof (cases "map_of C v")
        case None
        with False nstack 1(2) show ?thesis by auto
      next
        case (Some cands)
        with False nstack 1(2) have r: "tryCandidates reg C A (v # stack) st v cands [] = Inl e"
          by simp
        show ?thesis
          using 1(1)[OF False nstack Some _ _ r] Some False by simp
      qed
    qed
  qed
next
  case (2 reg C A stack st v tried)
  then show ?case by (auto simp: rev_map)
next
  case (3 reg C A stack st v n ns tried)
  show ?case
  proof (cases "map_of reg n")
    case None
    with 3(6) show ?thesis by auto
  next
    case (Some u)
    show ?thesis
    proof (cases "uproduct u \<noteq> v")
      case True
      with Some 3(6)
      have r: "tryCandidates reg C A stack st v ns ((n, ProducesOther (uproduct u)) # tried) = Inl e"
        by simp
      from 3(1)[OF Some True _ 3(5) r] 3(4) show ?thesis by simp
    next
      case False
      show ?thesis
      proof (cases "resolveIngredients reg C A stack st (uingredients u)")
        case (Inl e')
        show ?thesis
        proof (cases "next_candidate e'")
          case True
          with Some False Inl 3(6)
          have r: "tryCandidates reg C A stack st v ns ((n, IngredientFailure e') # tried) = Inl e"
            by simp
          from 3(3)[OF Some False Inl True _ 3(5) r] 3(4) show ?thesis by simp
        next
          case nc: False
          with Some False Inl 3(6) have "e = e'" by simp
          with 3(2)[OF Some False Inl] show ?thesis by simp
        qed
      next
        case (Inr st1)
        with Some False 3(6) show ?thesis by simp
      qed
    qed
  qed
next
  case (4 reg C A stack st)
  then show ?case by simp
next
  case (5 reg C A stack st i "is")
  show ?case
  proof (cases "resolveVariable reg C A stack st i")
    case (Inl e')
    with 5(3) have "e = e'" by simp
    with 5(1)[OF Inl] show ?thesis by simp
  next
    case (Inr st1)
    with 5(3) have "resolveIngredients reg C A stack st1 is = Inl e" by simp
    from 5(2)[OF Inr this] show ?thesis .
  qed
qed


lemma dedup_distinct: "distinct xs \<Longrightarrow> dedup xs = xs"
  by (simp add: dedup_def distinct_remdups_id)

text \<open>A plan that is returned produces what was requested and was not available, and
  nothing that was available.\<close>

lemma resolve_produces_requested:
  assumes "resolve reg A R C = Inr p"
  shows "set R \<subseteq> set A \<union> set (map uproduct p) \<and> set (map uproduct p) \<inter> set A = {}"
proof -
  from assms obtain st where
    r: "resolveIngredients reg C A [] \<lparr>resolved = [], plan = []\<rparr> R = Inr st"
    and p: "p = dedup (plan st)"
    by (auto simp: resolve_def split: sum.splits)
  have ok0: "resolution_ok A \<lparr>resolved = [], plan = []\<rparr>" by (simp add: resolution_ok_def)
  from resolve_invariant(3)[OF ok0 _ r]
  have ok: "resolution_ok A st" and req: "set R \<subseteq> set A \<union> set (resolved st)" by simp_all
  from ok have m: "map uproduct (plan st) = resolved st" and d: "distinct (resolved st)"
    and a: "set (resolved st) \<inter> set A = {}"
    by (simp_all add: resolution_ok_def)
  from m d have "distinct (plan st)" by (metis distinct_map)
  then have "p = plan st" using p by (simp add: dedup_distinct)
  with m req a show ?thesis by simp
qed

text \<open>
  Claim C2. \<open>resolve\<close> is a total function (its recursion ends because each nested call
  puts one more cookbook variable on the stack), so it returns for every registry,
  available set, requested set and cookbook. What it returns is either a plan in which
  every unit's ingredients are available or produced by an earlier unit and no two units
  produce the same variable, or one error of the documented kinds: an unknown unit, an
  unresolvable variable with its candidates, or a cyclic dependency with its path.
\<close>

theorem resolve_valid_plan_or_error:
  "(case resolve reg A R C of
      Inr p \<Rightarrow> valid_plan A p
    | Inl e \<Rightarrow> documented_error reg A C e)"
proof (cases "resolveIngredients reg C A [] \<lparr>resolved = [], plan = []\<rparr> R")
  case (Inl e)
  from resolve_errors(3)[OF Inl] Inl show ?thesis by (simp add: resolve_def)
next
  case (Inr st)
  have ok0: "resolution_ok A \<lparr>resolved = [], plan = []\<rparr>" by (simp add: resolution_ok_def)
  from resolve_invariant(3)[OF ok0 _ Inr] have ok: "resolution_ok A st" by simp
  then have d: "distinct (map uproduct (plan st))" and i: "ingredients_before_product A (plan st)"
    by (simp_all add: resolution_ok_def)
  from d have "distinct (plan st)" by (simp add: distinct_map)
  then have "dedup (plan st) = plan st" by (rule dedup_distinct)
  with Inr d i show ?thesis by (simp add: resolve_def valid_plan_def)
qed

text \<open>Requesting \<open>virtual_temperature\<close> from \<open>theta\<close>, \<open>exner\<close> and \<open>specific_humidity\<close> gives the
  plan \<open>AirTemperature_A\<close>, \<open>TempToVTemp\<close>; requesting a variable the cookbook does not have
  fails (Scenario 2); so do a unit whose ingredient is its own product (Scenario 3), a
  candidate that produces another variable than the one it is listed for, and a
  candidate that is not registered.\<close>

theorem resolve_valid_plan_or_error_witness:
  "resolve example_registry [''theta'', ''exner'', ''specific_humidity''] [''virtual_temperature'']
      example_cookbook
     = Inr [simple_unit ''AirTemperature_A'' ''air_temperature'' [''theta'', ''exner''] True,
            simple_unit ''TempToVTemp'' ''virtual_temperature''
              [''air_temperature'', ''specific_humidity''] True] \<and>
   valid_plan [''theta'', ''exner'', ''specific_humidity'']
      [simple_unit ''AirTemperature_A'' ''air_temperature'' [''theta'', ''exner''] True,
       simple_unit ''TempToVTemp'' ''virtual_temperature''
         [''air_temperature'', ''specific_humidity''] True] \<and>
   resolve example_registry [''theta'', ''exner''] [''dew_point''] example_cookbook
     = Inl (UnresolvableVariable ''dew_point'' []) \<and>
   resolve cyclic_registry [] [''x''] cyclic_cookbook = Inl (CyclicDependency ''x'' [''x'']) \<and>
   resolve clash_registry [] [''x'', ''y''] clash_cookbook
     = Inl (UnresolvableVariable ''y'' [(''U2'', ProducesOther ''x'')]) \<and>
   resolve [] [] [''x''] clash_cookbook = Inl (UnknownUnit ''U1'')"
proof -
  have e: "resolve example_registry [''theta'', ''exner'', ''specific_humidity'']
      [''virtual_temperature''] example_cookbook
     = Inr [simple_unit ''AirTemperature_A'' ''air_temperature'' [''theta'', ''exner''] True,
            simple_unit ''TempToVTemp'' ''virtual_temperature''
              [''air_temperature'', ''specific_humidity''] True]"
    by (simp add: resolve_def example_registry_def example_cookbook_def dedup_def simple_unit_def)
  have v: "valid_plan [''theta'', ''exner'', ''specific_humidity'']
      [simple_unit ''AirTemperature_A'' ''air_temperature'' [''theta'', ''exner''] True,
       simple_unit ''TempToVTemp'' ''virtual_temperature''
         [''air_temperature'', ''specific_humidity''] True]"
    using resolve_valid_plan_or_error[where reg = example_registry
            and A = "[''theta'', ''exner'', ''specific_humidity'']"
            and R = "[''virtual_temperature'']" and C = example_cookbook]
    unfolding e by simp
  have s2: "resolve example_registry [''theta'', ''exner''] [''dew_point''] example_cookbook
     = Inl (UnresolvableVariable ''dew_point'' [])"
    by (simp add: resolve_def example_registry_def example_cookbook_def)
  have s3: "resolve cyclic_registry [] [''x''] cyclic_cookbook = Inl (CyclicDependency ''x'' [''x''])"
    by (simp add: resolve_def cyclic_registry_def cyclic_cookbook_def simple_unit_def)
  have s4: "resolve clash_registry [] [''x'', ''y''] clash_cookbook
     = Inl (UnresolvableVariable ''y'' [(''U2'', ProducesOther ''x'')])"
    by (simp add: resolve_def clash_registry_def clash_cookbook_def simple_unit_def)
  have s5: "resolve [] [] [''x''] clash_cookbook = Inl (UnknownUnit ''U1'')"
    by (simp add: resolve_def clash_cookbook_def)
  show ?thesis using e v s2 s3 s4 s5 by simp
qed

end
